theory Spec2Isabelle
  imports Main "HOL-Library.Word"
begin

section \<open>Multi-processor bring-up and inter-processor signalling (x64)\<close>

text \<open>
  A shallow embedding of \<^verbatim>\<open>kernel/processor/x64/multi_processor-x64.cpp\<close>. The kernel's
  globals (\<^verbatim>\<open>processor_count\<close>, \<^verbatim>\<open>proc_info_block\<close>, \<^verbatim>\<open>inter_proc_signals\<close>) are a record
  that every function takes and returns. Calls into other parts of the kernel and stores
  to the fields that other processors read are appended to a trace, tagged with the LAPIC
  id of the processor that performs them, so that the order of effects can be stated.
  \<^verbatim>\<open>ASSERT\<close> and \<^verbatim>\<open>panic\<close> come from \<^verbatim>\<open>klib\<close>, which is not among the sources. Modelled from
  the spec: an assertion that fails and a panic are fatal and halt the system; they end
  the run with \<open>Fatal\<close>.
\<close>

subsection \<open>Data\<close>

datatype PROC_MP_X64_MSG_STATE = NO_MSG | MSG_WAITING | ACKNOWLEDGED

text \<open>
  The enumerations below are declared in headers that are not among the sources
  (\<^verbatim>\<open>processor/processor.h\<close>, \<^verbatim>\<open>processor/x64/processor-x64.h\<close>). Modelled from the spec:
  the messages are a small closed enum (\<^verbatim>\<open>SUSPEND\<close>, \<^verbatim>\<open>RESUME\<close>, \<^verbatim>\<open>RELOAD_TLB\<close>), an IPI has a
  shorthand and a kind among \<^verbatim>\<open>INIT\<close>, \<^verbatim>\<open>STARTUP\<close>, \<^verbatim>\<open>NMI\<close> and others.
\<close>

datatype PROC_IPI_MSGS = SUSPEND | RESUME | RELOAD_TLB

datatype PROC_IPI_SHORT_TARGET = NONE | SELF | ALL_INCL_SELF | ALL_EXCL_SELF

datatype PROC_IPI_INTERRUPT = FIXED | LOWEST_PRI | SMI | NMI | INIT | STARTUP

datatype PROC_X64_MSRS = IA32_APIC_BASE | IA32_FS_BASE | IA32_GS_BASE | IA32_KERNEL_GS_BASE

text \<open>\<^verbatim>\<open>struct proc_mp_ipi_msg_state\<close>; the spinlock is held (\<open>True\<close>) or free.\<close>

record proc_mp_ipi_msg_state =
  msg_being_sent :: PROC_IPI_MSGS
  msg_control_state :: PROC_MP_X64_MSG_STATE
  signal_lock :: bool

text \<open>
  \<^verbatim>\<open>struct processor_info\<close>, with the one field of \<^verbatim>\<open>platform_data\<close> that this file uses.
\<close>

record processor_info =
  processor_id :: "32 word"
  processor_running :: bool
  lapic_id :: "32 word"

text \<open>What a processor does that others can observe, in the order it does it.\<close>

datatype event =
    Call_proc_conf_interrupt_control_sys "32 word"
  | Call_proc_conf_local_int_controller
  | Call_proc_configure_global_int_ctrlrs
  | Call_klib_synch_spinlock_init "32 word"
  | Call_klib_synch_spinlock_lock "32 word"
  | Call_klib_synch_spinlock_unlock "32 word"
  | Call_proc_recreate_gdt "32 word"
  | Call_kl_memcpy "64 word" "32 word"
  | Call_proc_send_ipi "32 word" PROC_IPI_SHORT_TARGET PROC_IPI_INTERRUPT "8 word" bool
  | Call_time_stall_process "64 word"
  | Call_asm_proc_start_interrupts
  | Call_asm_proc_enable_fp_math
  | Call_proc_write_msr PROC_X64_MSRS "64 word"
  | Call_asm_proc_install_idt
  | Call_mem_x64_pat_init
  | Call_asm_syscall_x64_prepare
  | Call_asm_proc_load_gdt
  | Call_proc_load_tss "32 word"
  | Call_proc_mp_receive_signal PROC_IPI_MSGS
  | Store_processor_running "32 word" bool
  | Store_msg_being_sent "32 word" PROC_IPI_MSGS
  | Store_msg_control_state "32 word" PROC_MP_X64_MSG_STATE

record mp_state =
  processor_count :: "32 word"
  proc_info_block :: "processor_info list"
  inter_proc_signals :: "proc_mp_ipi_msg_state list"
  trace :: "(32 word \<times> event) list"

text \<open>
  How a run ends. \<open>AssertFailed\<close> carries the text of the assertion, \<open>Panic\<close> the
  message. \<open>Undefined_access\<close> is an array access outside the allocated table (or through
  the null \<^verbatim>\<open>inter_proc_signals\<close>), whose behaviour C++ leaves undefined; the model stops
  there. The state is the one at the moment the run ended.
\<close>

datatype fatal = AssertFailed string | Panic string | Undefined_access

datatype 'a outcome = Fatal fatal mp_state | Returns 'a mp_state

fun returned :: "'a outcome \<Rightarrow> bool" where
  "returned (Returns _ _) = True"
| "returned (Fatal _ _) = False"

fun final_state :: "'a outcome \<Rightarrow> mp_state" where
  "final_state (Returns _ st) = st"
| "final_state (Fatal _ st) = st"

definition emit :: "32 word \<Rightarrow> event \<Rightarrow> mp_state \<Rightarrow> mp_state" where
  "emit cpu e st = st\<lparr>trace := trace st @ [(cpu, e)]\<rparr>"

text \<open>The stores to the fields that are read across processors.\<close>

definition store_processor_running :: "32 word \<Rightarrow> 32 word \<Rightarrow> bool \<Rightarrow> mp_state \<Rightarrow> mp_state" where
  "store_processor_running cpu i b st =
     emit cpu (Store_processor_running i b)
       (st\<lparr>proc_info_block :=
             (proc_info_block st)[unat i := (proc_info_block st ! unat i)\<lparr>processor_running := b\<rparr>]\<rparr>)"

definition store_msg_being_sent :: "32 word \<Rightarrow> 32 word \<Rightarrow> PROC_IPI_MSGS \<Rightarrow> mp_state \<Rightarrow> mp_state" where
  "store_msg_being_sent cpu i m st =
     emit cpu (Store_msg_being_sent i m)
       (st\<lparr>inter_proc_signals :=
             (inter_proc_signals st)[unat i := (inter_proc_signals st ! unat i)\<lparr>msg_being_sent := m\<rparr>]\<rparr>)"

definition store_msg_control_state ::
  "32 word \<Rightarrow> 32 word \<Rightarrow> PROC_MP_X64_MSG_STATE \<Rightarrow> mp_state \<Rightarrow> mp_state" where
  "store_msg_control_state cpu i s st =
     emit cpu (Store_msg_control_state i s)
       (st\<lparr>inter_proc_signals :=
             (inter_proc_signals st)[unat i := (inter_proc_signals st ! unat i)\<lparr>msg_control_state := s\<rparr>]\<rparr>)"

subsection \<open>Processor self-identification: \<^verbatim>\<open>proc_mp_this_proc_id\<close>\<close>

text \<open>
  The \<^verbatim>\<open>for\<close> loop of \<^verbatim>\<open>proc_mp_this_proc_id\<close>. The result is the pair
  \<^verbatim>\<open>(apic_id_found, proc_id)\<close> at the loop's exit, \<open>(False, 0)\<close> being their initial
  values. The index is compared with the unsigned \<^verbatim>\<open>processor_count\<close>, so it is an
  unsigned word here.
\<close>

function this_proc_id_loop ::
  "32 word \<Rightarrow> 32 word \<Rightarrow> 32 word \<Rightarrow> processor_info list \<Rightarrow> fatal + (bool \<times> 32 word)" where
  "this_proc_id_loop lapic i cnt tbl =
     (if i < cnt then
        (if unat i < length tbl then
           (if lapic = lapic_id (tbl ! unat i)
            then Inr (True, processor_id (tbl ! unat i))
            else this_proc_id_loop lapic (i + 1) cnt tbl)
         else Inl Undefined_access)
      else Inr (False, 0))"
  by pat_completeness auto
termination
  by (relation "measure (\<lambda>(lapic, i, cnt, tbl). unat cnt - unat i)") (simp, unat_arith)

declare this_proc_id_loop.simps [simp del]

definition proc_mp_this_proc_id :: "32 word \<Rightarrow> mp_state \<Rightarrow> fatal + 32 word" where
  "proc_mp_this_proc_id cpu st =
     (let lapic = cpu in
      if 0 < processor_count st then
        (case this_proc_id_loop lapic 0 (processor_count st) (proc_info_block st) of
           Inl e \<Rightarrow> Inl e
         | Inr (apic_id_found, proc_id) \<Rightarrow>
             if apic_id_found then Inr proc_id else Inl (AssertFailed ''apic_id_found''))
      else Inr 0)"

text \<open>
  The first argument of every function is the LAPIC id of the processor that executes it,
  which is what \<^verbatim>\<open>proc_x64_apic_get_local_id()\<close> returns there. The function reads the
  globals and changes nothing, so it returns no state.
\<close>

subsection \<open>Application processor startup: \<^verbatim>\<open>proc_mp_ap_startup\<close>\<close>

text \<open>
  The function has no normal return: its last statements stall for two seconds and panic.
  When the scheduler takes the processor over during the stall, control never comes back
  to this code; the model follows the code to its last statement.
\<close>

definition proc_mp_ap_startup :: "32 word \<Rightarrow> mp_state \<Rightarrow> unit outcome" where
  "proc_mp_ap_startup cpu st =
     (let st1 = emit cpu Call_asm_proc_enable_fp_math st in
      case proc_mp_this_proc_id cpu st1 of
        Inl e \<Rightarrow> Fatal e st1
      | Inr proc_num \<Rightarrow>
          if \<not> proc_num \<noteq> 0 then Fatal (AssertFailed ''proc_num != 0'') st1
          else
            let st2 = emit cpu (Call_proc_write_msr IA32_KERNEL_GS_BASE 0) st1;
                st3 = emit cpu Call_asm_proc_install_idt st2;
                st4 = emit cpu Call_mem_x64_pat_init st3;
                st5 = emit cpu Call_asm_syscall_x64_prepare st4;
                st6 = emit cpu Call_asm_proc_load_gdt st5
            in
              case proc_mp_this_proc_id cpu st6 of
                Inl e \<Rightarrow> Fatal e st6
              | Inr tss_num \<Rightarrow>
                  let st7 = emit cpu (Call_proc_load_tss tss_num) st6;
                      st8 = emit cpu Call_proc_conf_local_int_controller st7
                  in
                    if \<not> unat proc_num < length (proc_info_block st8)
                    then Fatal Undefined_access st8
                    else
                      let st9 = store_processor_running cpu proc_num True st8;
                          st10 = emit cpu Call_asm_proc_start_interrupts st9;
                          st11 = emit cpu (Call_time_stall_process 2000000000) st10
                      in Fatal (Panic ''Failed to start AP'') st11)"

subsection \<open>Receiving a signal: \<^verbatim>\<open>proc_mp_x64_receive_signal_int\<close>\<close>

definition proc_mp_x64_receive_signal_int :: "32 word \<Rightarrow> mp_state \<Rightarrow> unit outcome" where
  "proc_mp_x64_receive_signal_int cpu st =
     (case proc_mp_this_proc_id cpu st of
        Inl e \<Rightarrow> Fatal e st
      | Inr this_proc_id \<Rightarrow>
          if \<not> unat this_proc_id < length (inter_proc_signals st) then Fatal Undefined_access st
          else if \<not> msg_control_state (inter_proc_signals st ! unat this_proc_id) = MSG_WAITING
          then Fatal (AssertFailed
                 ''inter_proc_signals[this_proc_id].msg_control_state == PROC_MP_X64_MSG_STATE::MSG_WAITING'') st
          else
            let st1 = emit cpu (Call_proc_mp_receive_signal
                                  (msg_being_sent (inter_proc_signals st ! unat this_proc_id))) st;
                st2 = store_msg_control_state cpu this_proc_id ACKNOWLEDGED st1
            in Returns () st2)"

subsection \<open>The environment\<close>

text \<open>
  The firmware table. \<^verbatim>\<open>acpi_init_subtable_ptr\<close> and \<^verbatim>\<open>acpi_advance_subtable_ptr\<close> are not
  among the sources. Modelled from the spec: the firmware-table reader is an iterator that
  yields the table's records one after the other, so the table is the list of its
  subtables and the two \<^verbatim>\<open>while\<close> loops of \<^verbatim>\<open>proc_mp_init\<close> walk that list. A subtable
  has its \<^verbatim>\<open>Type\<close> and, read through \<^verbatim>\<open>acpi_madt_local_apic\<close>, its \<^verbatim>\<open>ProcessorId\<close> and \<^verbatim>\<open>Id\<close>.
\<close>

record acpi_subtable =
  subtable_Type :: "8 word"
  lapic_ProcessorId :: "8 word"
  lapic_Id :: "8 word"

record acpi_table_madt =
  Header_Length :: "32 word"
  subtables :: "acpi_subtable list"

definition SUBTABLE_LAPIC_TYPE :: "8 word" where
  "SUBTABLE_LAPIC_TYPE = 0"

text \<open>
  \<^verbatim>\<open>sizeof(acpi_table_madt)\<close>: the 36 bytes of the ACPI table header, then the 32-bit local
  APIC address and the 32-bit flags.
\<close>

definition sizeof_acpi_table_madt :: "32 word" where
  "sizeof_acpi_table_madt = 44"

text \<open>
  What the code takes from outside itself:
  \<^item> \<open>AcpiGetTable\<close>: the MADT, or \<open>None\<close> when the status is not \<^verbatim>\<open>AE_OK\<close>;
  \<^item> \<open>new_processor_info\<close>, \<open>new_proc_mp_ipi_msg_state\<close>: the contents of an element of a
    freshly allocated array, which \<^verbatim>\<open>new[]\<close> does not initialise;
  \<^item> \<open>trampoline_length\<close>: the distance between the linker's two trampoline symbols;
  \<^item> \<open>time_get_system_timer_offset\<close>: the number of timer units in a number of
    nanoseconds (the timer is not among the sources; the spec has it take nanoseconds, as
    \<^verbatim>\<open>time_stall_process\<close> does);
  \<^item> \<open>time_get_system_timer_count i k\<close>: the timer as read for the \<open>k\<close>-th time while
    processor record \<open>i\<close> is being started (\<open>k = 0\<close> is the reading of \<^verbatim>\<open>start_time\<close>);
  \<^item> \<open>ap_running_after i\<close>: \<open>Some k\<close> when the processor of record \<open>i\<close>, once started,
    has stored its running flag just before the \<open>k\<close>-th evaluation of the polling loop's
    condition, \<open>None\<close> when it never does;
  \<^item> \<open>nmi_handled_after\<close>: \<open>Some k\<close> when the target of an NMI has run its handler just
    before the sender evaluates its waiting loop's condition for the \<open>k\<close>-th time (counted
    from 0), \<open>None\<close> when it never does.
\<close>

record mp_env =
  AcpiGetTable :: "acpi_table_madt option"
  new_processor_info :: processor_info
  new_proc_mp_ipi_msg_state :: proc_mp_ipi_msg_state
  trampoline_length :: "32 word"
  time_get_system_timer_offset :: "64 word \<Rightarrow> 64 word"
  time_get_system_timer_count :: "32 word \<Rightarrow> nat \<Rightarrow> 64 word"
  ap_running_after :: "32 word \<Rightarrow> nat option"
  nmi_handled_after :: "nat option"

subsection \<open>Sending a signal: \<^verbatim>\<open>proc_mp_x64_signal_proc\<close>\<close>

text \<open>
  \<^verbatim>\<open>klib_synch_spinlock_lock\<close> and \<^verbatim>\<open>klib_synch_spinlock_unlock\<close> are not among the sources.
  Modelled from the spec: acquiring spins until the lock is free and then holds it. The
  model has one sender, so nobody releases a lock that is already held and acquiring it
  does not return (\<open>None\<close>).
\<close>

definition klib_synch_spinlock_lock :: "32 word \<Rightarrow> 32 word \<Rightarrow> mp_state \<Rightarrow> mp_state option" where
  "klib_synch_spinlock_lock cpu i st =
     (if signal_lock (inter_proc_signals st ! unat i) then None
      else Some (emit cpu (Call_klib_synch_spinlock_lock i)
             (st\<lparr>inter_proc_signals :=
                   (inter_proc_signals st)[unat i := (inter_proc_signals st ! unat i)\<lparr>signal_lock := True\<rparr>]\<rparr>)))"

definition klib_synch_spinlock_unlock :: "32 word \<Rightarrow> 32 word \<Rightarrow> mp_state \<Rightarrow> mp_state" where
  "klib_synch_spinlock_unlock cpu i st =
     emit cpu (Call_klib_synch_spinlock_unlock i)
       (st\<lparr>inter_proc_signals :=
             (inter_proc_signals st)[unat i := (inter_proc_signals st ! unat i)\<lparr>signal_lock := False\<rparr>]\<rparr>)"

text \<open>
  The \<^verbatim>\<open>while\<close> loop that waits for the acknowledgement. Before the \<open>k\<close>-th evaluation of
  its condition the environment may have delivered the NMI: then the processor with LAPIC
  id \<open>dest\<close> has run its handler, \<open>proc_mp_x64_receive_signal_int\<close>. The loop has no bound
  in the code; the model stops with \<open>None\<close> when the fuel is used up.
\<close>

fun wait_for_acknowledgement ::
  "nat \<Rightarrow> mp_env \<Rightarrow> 32 word \<Rightarrow> 32 word \<Rightarrow> nat \<Rightarrow> mp_state \<Rightarrow> unit outcome option" where
  "wait_for_acknowledgement 0 env dest proc_id k st = None"
| "wait_for_acknowledgement (Suc fuel) env dest proc_id k st =
     (case (if nmi_handled_after env = Some k
            then proc_mp_x64_receive_signal_int dest st else Returns () st) of
        Fatal e st' \<Rightarrow> Some (Fatal e st')
      | Returns _ st' \<Rightarrow>
          if msg_control_state (inter_proc_signals st' ! unat proc_id) \<noteq> ACKNOWLEDGED
          then wait_for_acknowledgement fuel env dest proc_id (Suc k) st'
          else Some (Returns () st'))"

definition proc_mp_x64_signal_proc ::
  "nat \<Rightarrow> mp_env \<Rightarrow> 32 word \<Rightarrow> 32 word \<Rightarrow> PROC_IPI_MSGS \<Rightarrow> mp_state \<Rightarrow> unit outcome option" where
  "proc_mp_x64_signal_proc fuel env cpu proc_id msg st =
     (if \<not> proc_id < processor_count st
      then Some (Fatal (AssertFailed ''proc_id < processor_count'') st)
      else if \<not> unat proc_id < length (inter_proc_signals st)
      then Some (Fatal Undefined_access st)
      else
        case klib_synch_spinlock_lock cpu proc_id st of
          None \<Rightarrow> None
        | Some st1 \<Rightarrow>
            if \<not> msg_control_state (inter_proc_signals st1 ! unat proc_id) = NO_MSG
            then Some (Fatal (AssertFailed
                   ''inter_proc_signals[proc_id].msg_control_state == PROC_MP_X64_MSG_STATE::NO_MSG'') st1)
            else
              let st2 = store_msg_being_sent cpu proc_id msg st1;
                  st3 = store_msg_control_state cpu proc_id MSG_WAITING st2
              in
                if \<not> unat proc_id < length (proc_info_block st3)
                then Some (Fatal Undefined_access st3)
                else
                  let dest = lapic_id (proc_info_block st3 ! unat proc_id);
                      st4 = emit cpu (Call_proc_send_ipi dest NONE NMI 0 False) st3
                  in
                    case wait_for_acknowledgement fuel env dest proc_id 0 st4 of
                      None \<Rightarrow> None
                    | Some (Fatal e st5) \<Rightarrow> Some (Fatal e st5)
                    | Some (Returns _ st5) \<Rightarrow>
                        let st6 = store_msg_control_state cpu proc_id NO_MSG st5;
                            st7 = klib_synch_spinlock_unlock cpu proc_id st6
                        in Some (Returns () st7))"

subsection \<open>Bring-up on the bootstrap processor: \<^verbatim>\<open>proc_mp_init\<close>\<close>

text \<open>The first \<^verbatim>\<open>while\<close> loop: count the local APIC subtables into \<^verbatim>\<open>processor_count\<close>.\<close>

fun count_lapic_subtables :: "acpi_subtable list \<Rightarrow> mp_state \<Rightarrow> mp_state" where
  "count_lapic_subtables [] st = st"
| "count_lapic_subtables (subtable # rest) st =
     count_lapic_subtables rest
       (if subtable_Type subtable = SUBTABLE_LAPIC_TYPE
        then st\<lparr>processor_count := processor_count st + 1\<rparr> else st)"

definition store_processor_id :: "32 word \<Rightarrow> 32 word \<Rightarrow> mp_state \<Rightarrow> mp_state" where
  "store_processor_id i v st =
     st\<lparr>proc_info_block := (proc_info_block st)[unat i := (proc_info_block st ! unat i)\<lparr>processor_id := v\<rparr>]\<rparr>"

definition store_lapic_id :: "32 word \<Rightarrow> 32 word \<Rightarrow> mp_state \<Rightarrow> mp_state" where
  "store_lapic_id i v st =
     st\<lparr>proc_info_block := (proc_info_block st)[unat i := (proc_info_block st ! unat i)\<lparr>lapic_id := v\<rparr>]\<rparr>"

text \<open>
  The second \<^verbatim>\<open>while\<close> loop: save the details of each local APIC subtable. The result is
  \<^verbatim>\<open>procs_saved\<close>. The 8-bit \<^verbatim>\<open>Id\<close> is widened to the 32-bit \<^verbatim>\<open>lapic_id\<close>.
\<close>

fun save_lapic_subtables ::
  "32 word \<Rightarrow> acpi_subtable list \<Rightarrow> 32 word \<Rightarrow> mp_state \<Rightarrow> 32 word outcome" where
  "save_lapic_subtables cpu [] procs_saved st = Returns procs_saved st"
| "save_lapic_subtables cpu (subtable # rest) procs_saved st =
     (if subtable_Type subtable = SUBTABLE_LAPIC_TYPE then
        (if \<not> procs_saved < processor_count st
         then Fatal (AssertFailed ''procs_saved < processor_count'') st
         else if \<not> unat procs_saved < length (proc_info_block st)
         then Fatal Undefined_access st
         else
           let st1 = store_processor_id procs_saved procs_saved st;
               st2 = store_processor_running cpu procs_saved False st1;
               st3 = store_lapic_id procs_saved (ucast (lapic_Id subtable)) st2
           in save_lapic_subtables cpu rest (procs_saved + 1) st3)
      else save_lapic_subtables cpu rest procs_saved st)"

text \<open>Lines 82 to 134 of \<^verbatim>\<open>proc_mp_init\<close>: the enumeration of the processors.\<close>

definition proc_mp_init_enumerate :: "mp_env \<Rightarrow> 32 word \<Rightarrow> mp_state \<Rightarrow> 32 word outcome" where
  "proc_mp_init_enumerate env cpu st =
     (case AcpiGetTable env of
        None \<Rightarrow> Fatal (AssertFailed ''retval == AE_OK'') st
      | Some madt_table \<Rightarrow>
          if \<not> sizeof_acpi_table_madt < Header_Length madt_table
          then Fatal (AssertFailed ''madt_table->Header.Length > sizeof(acpi_table_madt)'') st
          else
            let st1 = st\<lparr>processor_count := 0\<rparr>;
                st2 = count_lapic_subtables (subtables madt_table) st1;
                st3 = st2\<lparr>proc_info_block :=
                            replicate (unat (processor_count st2)) (new_processor_info env),
                          inter_proc_signals :=
                            replicate (unat (processor_count st2)) (new_proc_mp_ipi_msg_state env)\<rparr>
            in save_lapic_subtables cpu (subtables madt_table) 0 st3)"

definition klib_synch_spinlock_init :: "32 word \<Rightarrow> 32 word \<Rightarrow> mp_state \<Rightarrow> mp_state" where
  "klib_synch_spinlock_init cpu i st =
     emit cpu (Call_klib_synch_spinlock_init i)
       (st\<lparr>inter_proc_signals :=
             (inter_proc_signals st)[unat i := (inter_proc_signals st ! unat i)\<lparr>signal_lock := False\<rparr>]\<rparr>)"

text \<open>The \<^verbatim>\<open>for\<close> loop that fills in the signal slots.\<close>

function fill_signals_loop :: "32 word \<Rightarrow> 32 word \<Rightarrow> mp_state \<Rightarrow> unit outcome" where
  "fill_signals_loop cpu i st =
     (if i < processor_count st then
        (if \<not> unat i < length (inter_proc_signals st) then Fatal Undefined_access st
         else
           let st1 = store_msg_being_sent cpu i SUSPEND st;
               st2 = store_msg_control_state cpu i NO_MSG st1;
               st3 = klib_synch_spinlock_init cpu i st2
           in fill_signals_loop cpu (i + 1) st3)
      else Returns () st)"
  by pat_completeness auto
termination
  by (relation "measure (\<lambda>(cpu, i, st). unat (processor_count st) - unat i)")
     (simp, simp add: klib_synch_spinlock_init_def store_msg_control_state_def
        store_msg_being_sent_def emit_def, unat_arith)

declare fill_signals_loop.simps [simp del]

text \<open>
  The \<^verbatim>\<open>while\<close> loop that waits for the started processor, on the processor table. Before
  the \<open>k\<close>-th evaluation of the condition the environment may have stored the running flag
  of record \<open>i\<close>. The timer is read first and the flag only when the time is not up. The
  loop ends when the timer says so; a timer that never gets to \<^verbatim>\<open>end_time\<close> is possible
  in the model, which then stops with \<open>None\<close> when the fuel is used up.
\<close>

fun wait_for_running ::
  "nat \<Rightarrow> mp_env \<Rightarrow> 32 word \<Rightarrow> 64 word \<Rightarrow> nat \<Rightarrow> processor_info list \<Rightarrow> processor_info list option" where
  "wait_for_running 0 env i end_time k tbl = None"
| "wait_for_running (Suc fuel) env i end_time k tbl =
     (let tbl' = (if ap_running_after env i = Some k
                  then tbl[unat i := (tbl ! unat i)\<lparr>processor_running := True\<rparr>] else tbl)
      in if time_get_system_timer_count env i k < end_time
            \<and> processor_running (tbl' ! unat i) = False
         then wait_for_running fuel env i end_time (Suc k) tbl'
         else Some tbl')"

text \<open>
  Lines 171 to 214: the \<^verbatim>\<open>for\<close> loop that starts the processors. The bound check at the
  head of an iteration covers every access to record \<open>i\<close> in it.
\<close>

function start_processors_loop ::
  "nat \<Rightarrow> mp_env \<Rightarrow> 32 word \<Rightarrow> 64 word \<Rightarrow> 32 word \<Rightarrow> mp_state \<Rightarrow> unit outcome option" where
  "start_processors_loop fuel env cpu wait_offset i st =
     (if i < processor_count st then
        (if \<not> unat i < length (proc_info_block st) then Some (Fatal Undefined_access st)
         else if lapic_id (proc_info_block st ! unat i) = cpu
         then start_processors_loop fuel env cpu wait_offset (i + 1)
                (store_processor_running cpu i True st)
         else
           let st1 = emit cpu (Call_proc_send_ipi (lapic_id (proc_info_block st ! unat i))
                                 NONE INIT 0 True) st;
               st2 = emit cpu (Call_time_stall_process 10000000) st1;
               st3 = emit cpu (Call_proc_send_ipi (lapic_id (proc_info_block st2 ! unat i))
                                 NONE STARTUP 1 True) st2;
               start_time = time_get_system_timer_count env i 0;
               end_time = start_time + wait_offset
           in
             case wait_for_running fuel env i end_time 1 (proc_info_block st3) of
               None \<Rightarrow> None
             | Some tbl \<Rightarrow>
                 if \<not> processor_running (tbl ! unat i)
                 then Some (Fatal (AssertFailed ''proc_info_block[i].processor_running'')
                              (st3\<lparr>proc_info_block := tbl\<rparr>))
                 else start_processors_loop fuel env cpu wait_offset (i + 1)
                        (st3\<lparr>proc_info_block := tbl\<rparr>))
      else Some (Returns () st))"
  by pat_completeness auto
termination
  by (relation "measure (\<lambda>(fuel, env, cpu, wait_offset, i, st). unat (processor_count st) - unat i)")
     (simp, (simp add: store_processor_running_def emit_def, unat_arith)+)

declare start_processors_loop.simps [simp del]

text \<open>
  The whole function. The argument of \<^verbatim>\<open>time_get_system_timer_offset\<close> is the one in the
  code, in nanoseconds.
\<close>

definition proc_mp_init :: "nat \<Rightarrow> mp_env \<Rightarrow> 32 word \<Rightarrow> mp_state \<Rightarrow> unit outcome option" where
  "proc_mp_init fuel env cpu st =
     (case proc_mp_init_enumerate env cpu st of
        Fatal e st' \<Rightarrow> Some (Fatal e st')
      | Returns procs_saved st1 \<Rightarrow>
          let st2 = emit cpu (Call_proc_conf_interrupt_control_sys (processor_count st1)) st1;
              st3 = emit cpu Call_proc_conf_local_int_controller st2;
              st4 = emit cpu Call_proc_configure_global_int_ctrlrs st3
          in
            if \<not> procs_saved = processor_count st4
            then Some (Fatal (AssertFailed ''procs_saved == processor_count'') st4)
            else
              case fill_signals_loop cpu 0 st4 of
                Fatal e st' \<Rightarrow> Some (Fatal e st')
              | Returns _ st5 \<Rightarrow>
                  let st6 = emit cpu (Call_proc_recreate_gdt (processor_count st5)) st5;
                      st7 = emit cpu (Call_kl_memcpy 0x1000 (trampoline_length env)) st6;
                      wait_offset = time_get_system_timer_offset env 10000000000
                  in
                    case start_processors_loop fuel env cpu wait_offset 0 st7 of
                      None \<Rightarrow> None
                    | Some (Fatal e st') \<Rightarrow> Some (Fatal e st')
                    | Some (Returns _ st8) \<Rightarrow>
                        Some (Returns () (emit cpu Call_asm_proc_start_interrupts st8)))"

text \<open>The globals before \<^verbatim>\<open>proc_mp_init\<close> has run: no processor, no table, no slot.\<close>

definition boot_state :: mp_state where
  "boot_state = \<lparr>processor_count = 0, proc_info_block = [], inter_proc_signals = [], trace = []\<rparr>"

subsection \<open>The enumeration in the specification\<close>

text \<open>The local APIC descriptors of a MADT, in iteration order; the others are left out.\<close>

definition local_apic_descriptors :: "acpi_table_madt \<Rightarrow> acpi_subtable list" where
  "local_apic_descriptors madt =
     filter (\<lambda>subtable. subtable_Type subtable = SUBTABLE_LAPIC_TYPE) (subtables madt)"

subsection \<open>The order of onboarding in the specification\<close>

text \<open>
  The specification's section on AP onboarding numbers the steps: 1 zero the per-CPU
  kernel state pointer, 2 install the descriptor tables (IDT, GDT, TSS), 3 initialise the
  CPU-local features (PAT, system-call MSRs, FP), 4 initialise the local interrupt
  controller, 5 publish \<^verbatim>\<open>running = true\<close>, 6 enable interrupts and wait. This is the
  step each action of \<open>proc_mp_ap_startup\<close> belongs to, following those words.
\<close>

fun spec_onboarding_step :: "event \<Rightarrow> nat option" where
  "spec_onboarding_step (Call_proc_write_msr IA32_KERNEL_GS_BASE v) = Some 1"
| "spec_onboarding_step Call_asm_proc_install_idt = Some 2"
| "spec_onboarding_step Call_asm_proc_load_gdt = Some 2"
| "spec_onboarding_step (Call_proc_load_tss n) = Some 2"
| "spec_onboarding_step Call_mem_x64_pat_init = Some 3"
| "spec_onboarding_step Call_asm_syscall_x64_prepare = Some 3"
| "spec_onboarding_step Call_asm_proc_enable_fp_math = Some 3"
| "spec_onboarding_step Call_proc_conf_local_int_controller = Some 4"
| "spec_onboarding_step (Store_processor_running n b) = Some 5"
| "spec_onboarding_step Call_asm_proc_start_interrupts = Some 6"
| "spec_onboarding_step (Call_time_stall_process ns) = Some 6"
| "spec_onboarding_step _ = None"

text \<open>The steps of a trace, in the order the trace has them.\<close>

definition spec_onboarding_steps :: "(32 word \<times> event) list \<Rightarrow> nat list" where
  "spec_onboarding_steps tr = List.map_filter (\<lambda>(cpu, e). spec_onboarding_step e) tr"

subsection \<open>The boot sequence in the specification\<close>

text \<open>
  What the specification's per-AP protocol has the boot sequencer do for the record at
  index \<open>i\<close>: for the executing processor's own record, mark it running; for any other, an
  INIT IPI, a wait of 10 ms (in nanoseconds), and a STARTUP IPI with vector
  \<^verbatim>\<open>TRAMPOLINE_PADDR >> 12\<close>, both with no shorthand and waiting for delivery.
\<close>

definition TRAMPOLINE_PADDR :: "64 word" where
  "TRAMPOLINE_PADDR = 0x1000"

definition spec_boot_actions :: "32 word \<Rightarrow> 32 word \<Rightarrow> processor_info \<Rightarrow> (32 word \<times> event) list" where
  "spec_boot_actions cpu i r =
     (if lapic_id r = cpu then [(cpu, Store_processor_running i True)]
      else [(cpu, Call_proc_send_ipi (lapic_id r) NONE INIT 0 True),
            (cpu, Call_time_stall_process (10 * 1000000)),
            (cpu, Call_proc_send_ipi (lapic_id r) NONE STARTUP (ucast (drop_bit 12 TRAMPOLINE_PADDR)) True)])"

definition spec_boot_trace :: "32 word \<Rightarrow> processor_info list \<Rightarrow> nat \<Rightarrow> nat \<Rightarrow> (32 word \<times> event) list" where
  "spec_boot_trace cpu tbl m n = concat (map (\<lambda>j. spec_boot_actions cpu (of_nat j) (tbl ! j)) [m..<n])"

text \<open>
  The processor table once the sequencer is through with its first \<open>n\<close> records: each
  of them has its running flag set, whether by the sequencer for its own record or by the
  started processor for another, and nothing else in the table has changed.
\<close>

definition spec_boot_table :: "processor_info list \<Rightarrow> nat \<Rightarrow> processor_info list" where
  "spec_boot_table tbl n = map (\<lambda>r. r\<lparr>processor_running := True\<rparr>) (take n tbl) @ drop n tbl"

subsection \<open>Example configurations\<close>

text \<open>
  A MADT with local APICs 0, 1, 3 and 7 and an I/O APIC subtable between them, and one
  with an I/O APIC subtable only.
\<close>

definition example_madt :: acpi_table_madt where
  "example_madt =
     \<lparr>Header_Length = 88,
      subtables =
        [\<lparr>subtable_Type = 0, lapic_ProcessorId = 0, lapic_Id = 0\<rparr>,
         \<lparr>subtable_Type = 0, lapic_ProcessorId = 1, lapic_Id = 1\<rparr>,
         \<lparr>subtable_Type = 1, lapic_ProcessorId = 4, lapic_Id = 0\<rparr>,
         \<lparr>subtable_Type = 0, lapic_ProcessorId = 2, lapic_Id = 3\<rparr>,
         \<lparr>subtable_Type = 0, lapic_ProcessorId = 3, lapic_Id = 7\<rparr>]\<rparr>"

definition no_lapic_madt :: acpi_table_madt where
  "no_lapic_madt =
     \<lparr>Header_Length = 56,
      subtables = [\<lparr>subtable_Type = 1, lapic_ProcessorId = 4, lapic_Id = 0\<rparr>]\<rparr>"

text \<open>
  An environment in which the timer counts nanoseconds and is read once a second while the
  bootstrap processor waits, every started processor has set its running flag by the fifth
  reading, and an NMI is handled before the third look of its sender.
\<close>

definition example_env :: mp_env where
  "example_env =
     \<lparr>AcpiGetTable = Some example_madt,
      new_processor_info = \<lparr>processor_id = 77, processor_running = True, lapic_id = 99\<rparr>,
      new_proc_mp_ipi_msg_state =
        \<lparr>msg_being_sent = RESUME, msg_control_state = ACKNOWLEDGED, signal_lock = True\<rparr>,
      trampoline_length = 100,
      time_get_system_timer_offset = (\<lambda>ns. ns),
      time_get_system_timer_count = (\<lambda>i k. of_nat k * 1000000000),
      ap_running_after = (\<lambda>i. Some 5),
      nmi_handled_after = Some 2\<rparr>"

definition no_lapic_env :: mp_env where
  "no_lapic_env = example_env\<lparr>AcpiGetTable := Some no_lapic_madt\<rparr>"

text \<open>The globals of a machine with those four processors, all running, every slot at rest.\<close>

definition example_state :: mp_state where
  "example_state =
     \<lparr>processor_count = 4,
      proc_info_block =
        [\<lparr>processor_id = 0, processor_running = True, lapic_id = 0\<rparr>,
         \<lparr>processor_id = 1, processor_running = True, lapic_id = 1\<rparr>,
         \<lparr>processor_id = 2, processor_running = True, lapic_id = 3\<rparr>,
         \<lparr>processor_id = 3, processor_running = True, lapic_id = 7\<rparr>],
      inter_proc_signals =
        replicate 4 \<lparr>msg_being_sent = SUSPEND, msg_control_state = NO_MSG, signal_lock = False\<rparr>,
      trace = []\<rparr>"

text \<open>
  The globals of that machine when the bootstrap processor, with LAPIC id 0, is about to
  start the others, and an environment in which no started processor ever sets its flag.
\<close>

definition enumerated_state :: mp_state where
  "enumerated_state =
     \<lparr>processor_count = 4,
      proc_info_block =
        [\<lparr>processor_id = 0, processor_running = False, lapic_id = 0\<rparr>,
         \<lparr>processor_id = 1, processor_running = False, lapic_id = 1\<rparr>,
         \<lparr>processor_id = 2, processor_running = False, lapic_id = 3\<rparr>,
         \<lparr>processor_id = 3, processor_running = False, lapic_id = 7\<rparr>],
      inter_proc_signals =
        replicate 4 \<lparr>msg_being_sent = SUSPEND, msg_control_state = NO_MSG, signal_lock = False\<rparr>,
      trace = []\<rparr>"

definition never_running_env :: mp_env where
  "never_running_env = example_env\<lparr>ap_running_after := (\<lambda>i. None)\<rparr>"

section \<open>Properties\<close>

subsection \<open>Auxiliary facts\<close>

lemma unat_succ_less: "i < (c::32 word) \<Longrightarrow> unat (i + 1) = Suc (unat i)"
  by unat_arith

lemma this_proc_id_loop_find:
  "length tbl = unat cnt \<Longrightarrow> i \<le> cnt \<Longrightarrow>
   this_proc_id_loop lapic i cnt tbl =
     (case find (\<lambda>r. lapic_id r = lapic) (drop (unat i) tbl) of
        Some r \<Rightarrow> Inr (True, processor_id r)
      | None \<Rightarrow> Inr (False, 0))"
proof (induction lapic i cnt tbl rule: this_proc_id_loop.induct)
  case (1 lapic i cnt tbl)
  show ?case
  proof (cases "i < cnt")
    case True
    then have ui: "unat i < length tbl"
      using "1.prems" by (simp add: word_less_nat_alt)
    have step: "drop (unat i) tbl = tbl ! unat i # drop (unat (i + 1)) tbl"
      using ui True by (simp add: Cons_nth_drop_Suc unat_succ_less)
    have le: "i + 1 \<le> cnt"
      using True by (rule inc_le)
    show ?thesis
    proof (cases "lapic = lapic_id (tbl ! unat i)")
      case True
      then show ?thesis
        using \<open>i < cnt\<close> ui step by (subst this_proc_id_loop.simps) simp
    next
      case False
      then have "this_proc_id_loop lapic i cnt tbl = this_proc_id_loop lapic (i + 1) cnt tbl"
        using \<open>i < cnt\<close> ui by (subst this_proc_id_loop.simps) simp
      also have "\<dots> = (case find (\<lambda>r. lapic_id r = lapic) (drop (unat (i + 1)) tbl) of
                          Some r \<Rightarrow> Inr (True, processor_id r) | None \<Rightarrow> Inr (False, 0))"
        using "1.IH" [OF \<open>i < cnt\<close> ui False "1.prems"(1) le] .
      finally show ?thesis
        using False step by auto
    qed
  next
    case False
    then have "i = cnt"
      using "1.prems" by simp
    then show ?thesis
      using "1.prems" by (subst this_proc_id_loop.simps) simp
  qed
qed

lemma emit_fields [simp]:
  "processor_count (emit c e st) = processor_count st"
  "proc_info_block (emit c e st) = proc_info_block st"
  "inter_proc_signals (emit c e st) = inter_proc_signals st"
  "trace (emit c e st) = trace st @ [(c, e)]"
  by (simp_all add: emit_def)

lemma store_processor_running_fields [simp]:
  "processor_count (store_processor_running c i b st) = processor_count st"
  "proc_info_block (store_processor_running c i b st) =
     (proc_info_block st)[unat i := (proc_info_block st ! unat i)\<lparr>processor_running := b\<rparr>]"
  "inter_proc_signals (store_processor_running c i b st) = inter_proc_signals st"
  "trace (store_processor_running c i b st) = trace st @ [(c, Store_processor_running i b)]"
  by (simp_all add: store_processor_running_def)

lemma store_msg_being_sent_fields [simp]:
  "processor_count (store_msg_being_sent c i m st) = processor_count st"
  "proc_info_block (store_msg_being_sent c i m st) = proc_info_block st"
  "inter_proc_signals (store_msg_being_sent c i m st) =
     (inter_proc_signals st)[unat i := (inter_proc_signals st ! unat i)\<lparr>msg_being_sent := m\<rparr>]"
  "trace (store_msg_being_sent c i m st) = trace st @ [(c, Store_msg_being_sent i m)]"
  by (simp_all add: store_msg_being_sent_def)

lemma store_msg_control_state_fields [simp]:
  "processor_count (store_msg_control_state c i s st) = processor_count st"
  "proc_info_block (store_msg_control_state c i s st) = proc_info_block st"
  "inter_proc_signals (store_msg_control_state c i s st) =
     (inter_proc_signals st)[unat i := (inter_proc_signals st ! unat i)\<lparr>msg_control_state := s\<rparr>]"
  "trace (store_msg_control_state c i s st) = trace st @ [(c, Store_msg_control_state i s)]"
  by (simp_all add: store_msg_control_state_def)

lemma this_proc_id_emit [simp]:
  "proc_mp_this_proc_id cpu (emit c e st) = proc_mp_this_proc_id cpu st"
  by (simp add: proc_mp_this_proc_id_def emit_def)

lemma this_proc_id_cong:
  "processor_count a = processor_count b \<Longrightarrow> proc_info_block a = proc_info_block b \<Longrightarrow>
   proc_mp_this_proc_id cpu a = proc_mp_this_proc_id cpu b"
  by (simp add: proc_mp_this_proc_id_def)

lemma spinlock_lock_fields:
  "klib_synch_spinlock_lock c i st = Some st' \<Longrightarrow>
     processor_count st' = processor_count st
     \<and> proc_info_block st' = proc_info_block st
     \<and> inter_proc_signals st' =
         (inter_proc_signals st)[unat i := (inter_proc_signals st ! unat i)\<lparr>signal_lock := True\<rparr>]
     \<and> trace st' = trace st @ [(c, Call_klib_synch_spinlock_lock i)]"
  by (auto simp: klib_synch_spinlock_lock_def split: if_splits)

lemma spinlock_lock_free:
  "\<not> signal_lock (inter_proc_signals st ! unat i) \<Longrightarrow>
   \<exists>st'. klib_synch_spinlock_lock c i st = Some st'"
  by (simp add: klib_synch_spinlock_lock_def)

lemma spinlock_unlock_fields [simp]:
  "processor_count (klib_synch_spinlock_unlock c i st) = processor_count st"
  "proc_info_block (klib_synch_spinlock_unlock c i st) = proc_info_block st"
  "inter_proc_signals (klib_synch_spinlock_unlock c i st) =
     (inter_proc_signals st)[unat i := (inter_proc_signals st ! unat i)\<lparr>signal_lock := False\<rparr>]"
  "trace (klib_synch_spinlock_unlock c i st) = trace st @ [(c, Call_klib_synch_spinlock_unlock i)]"
  by (simp_all add: klib_synch_spinlock_unlock_def)

lemma wait_unhandled_is_None:
  "nmi_handled_after env = None \<or> (\<exists>n. nmi_handled_after env = Some n \<and> n < k) \<Longrightarrow>
   msg_control_state (inter_proc_signals st ! unat pid) \<noteq> ACKNOWLEDGED \<Longrightarrow>
   wait_for_acknowledgement fuel env dest pid k st = None"
  by (induction fuel arbitrary: k) auto

lemma wait_returns_after_handler:
  "wait_for_acknowledgement fuel env dest pid k st = Some (Returns u st') \<Longrightarrow>
   msg_control_state (inter_proc_signals st ! unat pid) \<noteq> ACKNOWLEDGED \<Longrightarrow>
   proc_mp_x64_receive_signal_int dest st = Returns () st'
   \<and> msg_control_state (inter_proc_signals st' ! unat pid) = ACKNOWLEDGED"
proof (induction fuel arbitrary: k)
  case 0
  then show ?case by simp
next
  case (Suc fuel)
  show ?case
  proof (cases "nmi_handled_after env = Some k")
    case True
    show ?thesis
    proof (cases "proc_mp_x64_receive_signal_int dest st")
      case (Fatal e s)
      then show ?thesis
        using Suc.prems True by simp
    next
      case (Returns v s)
      show ?thesis
      proof (cases "msg_control_state (inter_proc_signals s ! unat pid) = ACKNOWLEDGED")
        case True
        then show ?thesis
          using Suc.prems \<open>nmi_handled_after env = Some k\<close> Returns by simp
      next
        case False
        have "wait_for_acknowledgement fuel env dest pid (Suc k) s = None"
          by (rule wait_unhandled_is_None) (use \<open>nmi_handled_after env = Some k\<close> False in auto)
        then show ?thesis
          using Suc.prems \<open>nmi_handled_after env = Some k\<close> Returns False by simp
      qed
    qed
  next
    case False
    then have "wait_for_acknowledgement fuel env dest pid (Suc k) st = Some (Returns u st')"
      using Suc.prems by simp
    then show ?thesis
      using Suc.IH Suc.prems(2) by blast
  qed
qed

lemma receive_returns:
  "proc_mp_x64_receive_signal_int dest st = Returns u st' \<Longrightarrow>
   \<exists>j. proc_mp_this_proc_id dest st = Inr j \<and> unat j < length (inter_proc_signals st)
     \<and> msg_control_state (inter_proc_signals st ! unat j) = MSG_WAITING
     \<and> st' = store_msg_control_state dest j ACKNOWLEDGED
               (emit dest (Call_proc_mp_receive_signal (msg_being_sent (inter_proc_signals st ! unat j))) st)"
  by (auto simp: proc_mp_x64_receive_signal_int_def Let_def split: sum.splits if_splits)

lemma wait_returns_handled:
  "nmi_handled_after env = Some n \<Longrightarrow> k \<le> n \<Longrightarrow> n - k < fuel \<Longrightarrow>
   proc_mp_this_proc_id dest st = Inr pid \<Longrightarrow> unat pid < length (inter_proc_signals st) \<Longrightarrow>
   msg_control_state (inter_proc_signals st ! unat pid) = MSG_WAITING \<Longrightarrow>
   \<exists>st'. wait_for_acknowledgement fuel env dest pid k st = Some (Returns () st')"
proof (induction fuel arbitrary: k)
  case 0
  then show ?case by simp
next
  case (Suc fuel)
  show ?case
  proof (cases "k = n")
    case True
    then show ?thesis
      using Suc.prems by (simp add: proc_mp_x64_receive_signal_int_def Let_def)
  next
    case False
    then have "Suc k \<le> n" "n - Suc k < fuel"
      using Suc.prems by auto
    then obtain st' where "wait_for_acknowledgement fuel env dest pid (Suc k) st = Some (Returns () st')"
      using Suc.IH Suc.prems by blast
    then show ?thesis
      using False Suc.prems by auto
  qed
qed

lemma signal_returns_trace:
  assumes ret: "proc_mp_x64_signal_proc fuel env cpu proc_id msg st = Some (Returns u st')"
  shows "trace st' = trace st @
           [(cpu, Call_klib_synch_spinlock_lock proc_id),
            (cpu, Store_msg_being_sent proc_id msg),
            (cpu, Store_msg_control_state proc_id MSG_WAITING),
            (cpu, Call_proc_send_ipi (lapic_id (proc_info_block st ! unat proc_id)) NONE NMI 0 False),
            (lapic_id (proc_info_block st ! unat proc_id), Call_proc_mp_receive_signal msg),
            (lapic_id (proc_info_block st ! unat proc_id), Store_msg_control_state proc_id ACKNOWLEDGED),
            (cpu, Store_msg_control_state proc_id NO_MSG),
            (cpu, Call_klib_synch_spinlock_unlock proc_id)]
         \<and> msg_control_state (inter_proc_signals st ! unat proc_id) = NO_MSG
         \<and> inter_proc_signals st' =
             (inter_proc_signals st)[unat proc_id :=
                \<lparr>msg_being_sent = msg, msg_control_state = NO_MSG, signal_lock = False\<rparr>]
         \<and> proc_info_block st' = proc_info_block st"
proof -
  let ?p = "unat proc_id"
  let ?dest = "lapic_id (proc_info_block st ! ?p)"
  have valid: "proc_id < processor_count st" and slots: "?p < length (inter_proc_signals st)"
    using ret by (auto simp: proc_mp_x64_signal_proc_def split: if_splits)
  obtain st1 where lock: "klib_synch_spinlock_lock cpu proc_id st = Some st1"
    using ret valid slots by (auto simp: proc_mp_x64_signal_proc_def split: option.splits)
  note f1 = spinlock_lock_fields [OF lock]
  have idle: "msg_control_state (inter_proc_signals st ! ?p) = NO_MSG"
    using ret valid slots lock f1 by (auto simp: proc_mp_x64_signal_proc_def split: if_splits)
  define st4 where "st4 = emit cpu (Call_proc_send_ipi ?dest NONE NMI 0 False)
     (store_msg_control_state cpu proc_id MSG_WAITING (store_msg_being_sent cpu proc_id msg st1))"
  have recs: "?p < length (proc_info_block st)"
    using ret valid slots lock f1 idle
    by (auto simp: proc_mp_x64_signal_proc_def Let_def split: if_splits)
  obtain st5 where wait: "wait_for_acknowledgement fuel env ?dest proc_id 0 st4 = Some (Returns () st5)"
    and st': "st' = klib_synch_spinlock_unlock cpu proc_id (store_msg_control_state cpu proc_id NO_MSG st5)"
    using ret valid slots lock f1 idle recs
    by (auto simp: proc_mp_x64_signal_proc_def Let_def st4_def split: option.splits outcome.splits)
  have slots4: "inter_proc_signals st4 =
      (inter_proc_signals st)[?p :=
         \<lparr>msg_being_sent = msg, msg_control_state = MSG_WAITING, signal_lock = True\<rparr>]"
    using f1 slots by (cases "inter_proc_signals st ! ?p") (simp add: st4_def)
  have trace4: "trace st4 = trace st @
           [(cpu, Call_klib_synch_spinlock_lock proc_id),
            (cpu, Store_msg_being_sent proc_id msg),
            (cpu, Store_msg_control_state proc_id MSG_WAITING),
            (cpu, Call_proc_send_ipi ?dest NONE NMI 0 False)]"
    using f1 by (simp add: st4_def)
  have tbl4: "proc_info_block st4 = proc_info_block st"
    using f1 by (simp add: st4_def)
  have waiting: "msg_control_state (inter_proc_signals st4 ! ?p) \<noteq> ACKNOWLEDGED"
    using slots by (simp add: slots4)
  from wait_returns_after_handler [OF wait waiting]
  have handler: "proc_mp_x64_receive_signal_int ?dest st4 = Returns () st5"
    and acked: "msg_control_state (inter_proc_signals st5 ! ?p) = ACKNOWLEDGED"
    by simp_all
  from receive_returns [OF handler] obtain j where
    j: "unat j < length (inter_proc_signals st4)"
    and st5: "st5 = store_msg_control_state ?dest j ACKNOWLEDGED
               (emit ?dest (Call_proc_mp_receive_signal (msg_being_sent (inter_proc_signals st4 ! unat j))) st4)"
    by blast
  have "unat j = ?p"
  proof (rule ccontr)
    assume "unat j \<noteq> ?p"
    then have "inter_proc_signals st5 ! ?p = inter_proc_signals st4 ! ?p"
      by (simp add: st5)
    then show False
      using acked waiting by simp
  qed
  then have j_eq: "j = proc_id"
    by (simp add: word_unat_eq_iff)
  have msg5: "msg_being_sent (inter_proc_signals st4 ! ?p) = msg"
    using slots by (simp add: slots4)
  show ?thesis
    using slots idle by (simp add: st' st5 j_eq msg5 trace4 slots4 tbl4)
qed

subsection \<open>Processor self-identification\<close>

text \<open>
  Claim C6. Self-identification takes the executing processor's LAPIC id and searches the
  processor table from its first record: with an empty table (\<^verbatim>\<open>processor_count == 0\<close>) it
  returns 0; otherwise it returns the \<^verbatim>\<open>processor_id\<close> of the first record whose
  \<^verbatim>\<open>lapic_id\<close> matches, and when no record matches the assertion fails. The table is
  taken to hold \<^verbatim>\<open>processor_count\<close> records, as \<open>proc_mp_init\<close> allocates it.
\<close>

theorem C6_this_proc_id:
  assumes "length (proc_info_block st) = unat (processor_count st)"
  shows "proc_mp_this_proc_id cpu st =
     (if processor_count st = 0 then Inr 0
      else case find (\<lambda>r. lapic_id r = cpu) (proc_info_block st) of
             Some r \<Rightarrow> Inr (processor_id r)
           | None \<Rightarrow> Inl (AssertFailed ''apic_id_found''))"
proof (cases "processor_count st = 0")
  case True
  then show ?thesis
    by (simp add: proc_mp_this_proc_id_def)
next
  case False
  then have pos: "0 < processor_count st"
    by (simp add: word_greater_zero_iff)
  have "this_proc_id_loop cpu 0 (processor_count st) (proc_info_block st) =
     (case find (\<lambda>r. lapic_id r = cpu) (proc_info_block st) of
        Some r \<Rightarrow> Inr (True, processor_id r) | None \<Rightarrow> Inr (False, 0))"
    using this_proc_id_loop_find [OF assms, of 0 cpu] by simp
  then show ?thesis
    using False pos by (simp add: proc_mp_this_proc_id_def split: option.splits)
qed

theorem C6_this_proc_id_witness:
  "length (proc_info_block example_state) = unat (processor_count example_state)
   \<and> length (proc_info_block boot_state) = unat (processor_count boot_state)
   \<and> proc_mp_this_proc_id 3 example_state = Inr 2
   \<and> proc_mp_this_proc_id 9 example_state = Inl (AssertFailed ''apic_id_found'')
   \<and> proc_mp_this_proc_id 3 boot_state = Inr 0"
proof -
  have h: "length (proc_info_block example_state) = unat (processor_count example_state)"
    by (simp add: example_state_def)
  have hb: "length (proc_info_block boot_state) = unat (processor_count boot_state)"
    by (simp add: boot_state_def)
  show ?thesis
    using h hb C6_this_proc_id [OF h, of 3] C6_this_proc_id [OF h, of 9] C6_this_proc_id [OF hb, of 3]
    by (simp add: example_state_def boot_state_def)
qed

subsection \<open>Application processor startup\<close>

text \<open>
  Claim C10. On a processor that identifies itself as processor 0, the AP entry path stops
  at its assertion \<^verbatim>\<open>proc_num != 0\<close>: the only thing it has done by then is to enable
  floating point.
\<close>

theorem C10_ap_startup_on_bsp:
  assumes "proc_mp_this_proc_id cpu st = Inr 0"
  shows "proc_mp_ap_startup cpu st =
           Fatal (AssertFailed ''proc_num != 0'') (emit cpu Call_asm_proc_enable_fp_math st)"
  using assms by (simp add: proc_mp_ap_startup_def)

theorem C10_ap_startup_on_bsp_witness:
  "proc_mp_this_proc_id 0 example_state = Inr 0
   \<and> proc_mp_ap_startup 0 example_state =
       Fatal (AssertFailed ''proc_num != 0'') (emit 0 Call_asm_proc_enable_fp_math example_state)"
proof -
  have h: "proc_mp_this_proc_id 0 example_state = Inr 0"
    by code_simp
  show ?thesis
    using h C10_ap_startup_on_bsp [OF h] by simp
qed

text \<open>
  Claim C8, as stated: the onboarding steps are performed in the order the specification
  numbers them, so the step numbers along the trace never decrease. On the processor with
  LAPIC id 3 of the example they do: floating point (step 3) is enabled before the kernel
  state pointer is zeroed (step 1), and the PAT and the system-call MSRs (step 3) are set
  up before the GDT and the TSS are loaded (step 2).
\<close>

theorem C8_onboarding_order_counterexample:
  "spec_onboarding_steps (trace (final_state (proc_mp_ap_startup 3 example_state))) =
     [3, 1, 2, 3, 3, 2, 2, 4, 5, 6, 6]
   \<and> \<not> sorted (spec_onboarding_steps (trace (final_state (proc_mp_ap_startup 3 example_state))))"
  by code_simp

text \<open>
  Claim C8, amended. On a processor that identifies itself as \<open>proc_num \<noteq> 0\<close> the
  onboarding path performs, in this order: enable floating point, zero
  \<^verbatim>\<open>IA32_KERNEL_GS_BASE\<close>, install the IDT, initialise the PAT, prepare the system-call
  MSRs, load the GDT, load the TSS of \<open>proc_num\<close>, configure the local interrupt
  controller; the store of \<^verbatim>\<open>processor_running = true\<close> into its own record comes after
  all of them in program order, and before interrupts are enabled.
\<close>

theorem C8_onboarding_order:
  assumes "proc_mp_this_proc_id cpu st = Inr proc_num"
    and "proc_num \<noteq> 0"
    and "unat proc_num < length (proc_info_block st)"
  shows "\<exists>st'. proc_mp_ap_startup cpu st = Fatal (Panic ''Failed to start AP'') st'
     \<and> trace st' = trace st @
         [(cpu, Call_asm_proc_enable_fp_math),
          (cpu, Call_proc_write_msr IA32_KERNEL_GS_BASE 0),
          (cpu, Call_asm_proc_install_idt),
          (cpu, Call_mem_x64_pat_init),
          (cpu, Call_asm_syscall_x64_prepare),
          (cpu, Call_asm_proc_load_gdt),
          (cpu, Call_proc_load_tss proc_num),
          (cpu, Call_proc_conf_local_int_controller),
          (cpu, Store_processor_running proc_num True),
          (cpu, Call_asm_proc_start_interrupts),
          (cpu, Call_time_stall_process 2000000000)]
     \<and> proc_info_block st' =
         (proc_info_block st)[unat proc_num := (proc_info_block st ! unat proc_num)\<lparr>processor_running := True\<rparr>]"
  using assms
  by (simp add: proc_mp_ap_startup_def Let_def)

theorem C8_onboarding_order_witness:
  "proc_mp_this_proc_id 3 example_state = Inr 2
   \<and> (2 :: 32 word) \<noteq> 0
   \<and> unat (2 :: 32 word) < length (proc_info_block example_state)
   \<and> (\<exists>st'. proc_mp_ap_startup 3 example_state = Fatal (Panic ''Failed to start AP'') st'
        \<and> trace st' =
         [(3, Call_asm_proc_enable_fp_math),
          (3, Call_proc_write_msr IA32_KERNEL_GS_BASE 0),
          (3, Call_asm_proc_install_idt),
          (3, Call_mem_x64_pat_init),
          (3, Call_asm_syscall_x64_prepare),
          (3, Call_asm_proc_load_gdt),
          (3, Call_proc_load_tss 2),
          (3, Call_proc_conf_local_int_controller),
          (3, Store_processor_running 2 True),
          (3, Call_asm_proc_start_interrupts),
          (3, Call_time_stall_process 2000000000)])"
proof -
  have h1: "proc_mp_this_proc_id 3 example_state = Inr 2"
    by code_simp
  have h2: "(2 :: 32 word) \<noteq> 0"
    by simp
  have h3: "unat (2 :: 32 word) < length (proc_info_block example_state)"
    by (simp add: example_state_def)
  have tr: "trace example_state = []"
    by (simp add: example_state_def)
  show ?thesis
    using h1 h2 h3 C8_onboarding_order [OF h1 h2 h3] by (auto simp: tr)
qed

subsection \<open>Receiving a signal\<close>

text \<open>
  Claim C1, as stated: an NMI that finds the slot of the executing processor in a state
  other than \<^verbatim>\<open>MSG_WAITING\<close> is ignored and the handler returns. On the processor with LAPIC
  id 3 of the example, whose slot is at rest, the handler does not return: its assertion
  fails.
\<close>

theorem C1_stray_nmi_counterexample:
  "proc_mp_x64_receive_signal_int 3 example_state =
     Fatal (AssertFailed
       ''inter_proc_signals[this_proc_id].msg_control_state == PROC_MP_X64_MSG_STATE::MSG_WAITING'')
       example_state
   \<and> \<not> returned (proc_mp_x64_receive_signal_int 3 example_state)"
  by code_simp

text \<open>
  Claim C1, amended. When the handler runs on a processor whose slot is in a state other
  than \<^verbatim>\<open>MSG_WAITING\<close>, its assertion on that state fails and the kernel halts; the slot's
  state and message are as they were and no message has been dispatched (the state at the
  halt is the one the handler started in).
\<close>

theorem C1_stray_nmi_fatal:
  assumes "proc_mp_this_proc_id cpu st = Inr this_proc_id"
    and "unat this_proc_id < length (inter_proc_signals st)"
    and "msg_control_state (inter_proc_signals st ! unat this_proc_id) \<noteq> MSG_WAITING"
  shows "proc_mp_x64_receive_signal_int cpu st =
     Fatal (AssertFailed
       ''inter_proc_signals[this_proc_id].msg_control_state == PROC_MP_X64_MSG_STATE::MSG_WAITING'') st"
  using assms by (simp add: proc_mp_x64_receive_signal_int_def)

theorem C1_stray_nmi_fatal_witness:
  "proc_mp_this_proc_id 3 example_state = Inr 2
   \<and> unat (2 :: 32 word) < length (inter_proc_signals example_state)
   \<and> msg_control_state (inter_proc_signals example_state ! unat (2 :: 32 word)) \<noteq> MSG_WAITING
   \<and> proc_mp_x64_receive_signal_int 3 example_state =
     Fatal (AssertFailed
       ''inter_proc_signals[this_proc_id].msg_control_state == PROC_MP_X64_MSG_STATE::MSG_WAITING'')
       example_state"
proof -
  have a: "proc_mp_this_proc_id 3 example_state = Inr 2"
    by code_simp
  have b: "unat (2 :: 32 word) < length (inter_proc_signals example_state)"
    by (simp add: example_state_def)
  have c: "msg_control_state (inter_proc_signals example_state ! unat (2 :: 32 word)) \<noteq> MSG_WAITING"
    by (simp add: example_state_def)
  show ?thesis
    using a b c C1_stray_nmi_fatal [OF a b c] by simp
qed

subsection \<open>Sending a signal\<close>

text \<open>
  Claim C9. A call to signal whose target is not below \<^verbatim>\<open>processor_count\<close> stops at the
  first assertion: the lock has not been taken, no slot or processor record has been read
  or written, and nothing has been sent (the state at the halt is the one of the call).
\<close>

theorem C9_signal_out_of_range:
  assumes "processor_count st \<le> proc_id"
  shows "proc_mp_x64_signal_proc fuel env cpu proc_id msg st =
           Some (Fatal (AssertFailed ''proc_id < processor_count'') st)"
  using assms by (simp add: proc_mp_x64_signal_proc_def not_less)

theorem C9_signal_out_of_range_witness:
  "processor_count example_state \<le> 4
   \<and> proc_mp_x64_signal_proc 5 example_env 0 4 RESUME example_state =
       Some (Fatal (AssertFailed ''proc_id < processor_count'') example_state)"
proof -
  have h: "processor_count example_state \<le> 4"
    by (simp add: example_state_def)
  show ?thesis
    using h C9_signal_out_of_range [OF h] by simp
qed

text \<open>
  Claim C4. For a valid target whose lock is free, a call to signal

  \<^item> takes the lock and, when it then finds the slot in a state other than \<^verbatim>\<open>NO_MSG\<close>,
    halts at its assertion, having done nothing else;
  \<^item> when it returns, has done exactly this, in this order: taken the lock, written the
    message, published \<^verbatim>\<open>MSG_WAITING\<close>, sent the NMI to the target's LAPIC id; then the
    target has dispatched that message and published \<^verbatim>\<open>ACKNOWLEDGED\<close>; then the sender
    has put the state back to \<^verbatim>\<open>NO_MSG\<close> and released the lock; the slot ends at rest
    with the lock free;
  \<^item> does return when the slot was at rest, the target identifies itself as the processor
    signalled and runs its handler within the fuel given.
\<close>

theorem C4_signal:
  assumes valid: "proc_id < processor_count st"
    and slots: "unat proc_id < length (inter_proc_signals st)"
    and recs: "unat proc_id < length (proc_info_block st)"
    and free: "\<not> signal_lock (inter_proc_signals st ! unat proc_id)"
  shows
    "(msg_control_state (inter_proc_signals st ! unat proc_id) \<noteq> NO_MSG \<longrightarrow>
        (\<exists>st'. proc_mp_x64_signal_proc fuel env cpu proc_id msg st =
                 Some (Fatal (AssertFailed
                   ''inter_proc_signals[proc_id].msg_control_state == PROC_MP_X64_MSG_STATE::NO_MSG'') st')
           \<and> trace st' = trace st @ [(cpu, Call_klib_synch_spinlock_lock proc_id)]))
     \<and> (\<forall>st'. proc_mp_x64_signal_proc fuel env cpu proc_id msg st = Some (Returns () st') \<longrightarrow>
           trace st' = trace st @
             [(cpu, Call_klib_synch_spinlock_lock proc_id),
              (cpu, Store_msg_being_sent proc_id msg),
              (cpu, Store_msg_control_state proc_id MSG_WAITING),
              (cpu, Call_proc_send_ipi (lapic_id (proc_info_block st ! unat proc_id)) NONE NMI 0 False),
              (lapic_id (proc_info_block st ! unat proc_id), Call_proc_mp_receive_signal msg),
              (lapic_id (proc_info_block st ! unat proc_id), Store_msg_control_state proc_id ACKNOWLEDGED),
              (cpu, Store_msg_control_state proc_id NO_MSG),
              (cpu, Call_klib_synch_spinlock_unlock proc_id)]
           \<and> inter_proc_signals st' =
               (inter_proc_signals st)[unat proc_id :=
                  \<lparr>msg_being_sent = msg, msg_control_state = NO_MSG, signal_lock = False\<rparr>])
     \<and> (msg_control_state (inter_proc_signals st ! unat proc_id) = NO_MSG
          \<and> nmi_handled_after env = Some n \<and> n < fuel
          \<and> proc_mp_this_proc_id (lapic_id (proc_info_block st ! unat proc_id)) st = Inr proc_id \<longrightarrow>
        (\<exists>st'. proc_mp_x64_signal_proc fuel env cpu proc_id msg st = Some (Returns () st')))"
proof (intro conjI impI allI)
  obtain st1 where lock: "klib_synch_spinlock_lock cpu proc_id st = Some st1"
    using spinlock_lock_free [OF free] by blast
  note f1 = spinlock_lock_fields [OF lock]
  {
    assume "msg_control_state (inter_proc_signals st ! unat proc_id) \<noteq> NO_MSG"
    then show "\<exists>st'. proc_mp_x64_signal_proc fuel env cpu proc_id msg st =
                 Some (Fatal (AssertFailed
                   ''inter_proc_signals[proc_id].msg_control_state == PROC_MP_X64_MSG_STATE::NO_MSG'') st')
           \<and> trace st' = trace st @ [(cpu, Call_klib_synch_spinlock_lock proc_id)]"
      using valid slots lock f1 by (simp add: proc_mp_x64_signal_proc_def)
  }
  {
    fix st'
    assume "proc_mp_x64_signal_proc fuel env cpu proc_id msg st = Some (Returns () st')"
    from signal_returns_trace [OF this]
    show "trace st' = trace st @
             [(cpu, Call_klib_synch_spinlock_lock proc_id),
              (cpu, Store_msg_being_sent proc_id msg),
              (cpu, Store_msg_control_state proc_id MSG_WAITING),
              (cpu, Call_proc_send_ipi (lapic_id (proc_info_block st ! unat proc_id)) NONE NMI 0 False),
              (lapic_id (proc_info_block st ! unat proc_id), Call_proc_mp_receive_signal msg),
              (lapic_id (proc_info_block st ! unat proc_id), Store_msg_control_state proc_id ACKNOWLEDGED),
              (cpu, Store_msg_control_state proc_id NO_MSG),
              (cpu, Call_klib_synch_spinlock_unlock proc_id)]"
      and "inter_proc_signals st' =
               (inter_proc_signals st)[unat proc_id :=
                  \<lparr>msg_being_sent = msg, msg_control_state = NO_MSG, signal_lock = False\<rparr>]"
      by simp_all
  }
  {
    let ?dest = "lapic_id (proc_info_block st ! unat proc_id)"
    assume a: "msg_control_state (inter_proc_signals st ! unat proc_id) = NO_MSG
          \<and> nmi_handled_after env = Some n \<and> n < fuel
          \<and> proc_mp_this_proc_id ?dest st = Inr proc_id"
    define st4 where "st4 = emit cpu (Call_proc_send_ipi ?dest NONE NMI 0 False)
       (store_msg_control_state cpu proc_id MSG_WAITING (store_msg_being_sent cpu proc_id msg st1))"
    have id4: "proc_mp_this_proc_id ?dest st4 = Inr proc_id"
      using a f1 this_proc_id_cong [of st4 st ?dest] by (simp add: st4_def)
    have len4: "unat proc_id < length (inter_proc_signals st4)"
      using slots f1 by (simp add: st4_def)
    have wait4: "msg_control_state (inter_proc_signals st4 ! unat proc_id) = MSG_WAITING"
      using slots f1 by (simp add: st4_def)
    obtain st5 where "wait_for_acknowledgement fuel env ?dest proc_id 0 st4 = Some (Returns () st5)"
      using wait_returns_handled [of env n 0 fuel ?dest st4 proc_id] a id4 len4 wait4 by auto
    then show "\<exists>st'. proc_mp_x64_signal_proc fuel env cpu proc_id msg st = Some (Returns () st')"
      using valid slots recs lock f1 a
      by (simp add: proc_mp_x64_signal_proc_def Let_def st4_def)
  }
qed

theorem C4_signal_witness:
  "(2 :: 32 word) < processor_count example_state
   \<and> unat (2 :: 32 word) < length (inter_proc_signals example_state)
   \<and> unat (2 :: 32 word) < length (proc_info_block example_state)
   \<and> \<not> signal_lock (inter_proc_signals example_state ! unat (2 :: 32 word))
   \<and> (\<exists>st'. proc_mp_x64_signal_proc 5 example_env 0 2 RESUME example_state = Some (Returns () st')
        \<and> trace st' =
             [(0, Call_klib_synch_spinlock_lock 2),
              (0, Store_msg_being_sent 2 RESUME),
              (0, Store_msg_control_state 2 MSG_WAITING),
              (0, Call_proc_send_ipi 3 NONE NMI 0 False),
              (3, Call_proc_mp_receive_signal RESUME),
              (3, Store_msg_control_state 2 ACKNOWLEDGED),
              (0, Store_msg_control_state 2 NO_MSG),
              (0, Call_klib_synch_spinlock_unlock 2)])"
proof -
  have h1: "(2 :: 32 word) < processor_count example_state"
    by (simp add: example_state_def)
  have h2: "unat (2 :: 32 word) < length (inter_proc_signals example_state)"
    by (simp add: example_state_def)
  have h3: "unat (2 :: 32 word) < length (proc_info_block example_state)"
    by (simp add: example_state_def)
  have h4: "\<not> signal_lock (inter_proc_signals example_state ! unat (2 :: 32 word))"
    by (simp add: example_state_def)
  have dest: "lapic_id (proc_info_block example_state ! unat (2 :: 32 word)) = 3"
    by (simp add: example_state_def)
  have idle: "msg_control_state (inter_proc_signals example_state ! unat (2 :: 32 word)) = NO_MSG"
    by (simp add: example_state_def)
  have self: "proc_mp_this_proc_id 3 example_state = Inr 2"
    by code_simp
  have nmi: "nmi_handled_after example_env = Some 2"
    by (simp add: example_env_def)
  have tr: "trace example_state = []"
    by (simp add: example_state_def)
  note c4 = C4_signal [OF h1 h2 h3 h4, of 5 example_env 0 RESUME 2]
  from c4 idle nmi self dest
  obtain st' where run: "proc_mp_x64_signal_proc 5 example_env 0 2 RESUME example_state = Some (Returns () st')"
    by auto
  from c4 run dest tr have "trace st' =
             [(0, Call_klib_synch_spinlock_lock 2),
              (0, Store_msg_being_sent 2 RESUME),
              (0, Store_msg_control_state 2 MSG_WAITING),
              (0, Call_proc_send_ipi 3 NONE NMI 0 False),
              (3, Call_proc_mp_receive_signal RESUME),
              (3, Store_msg_control_state 2 ACKNOWLEDGED),
              (0, Store_msg_control_state 2 NO_MSG),
              (0, Call_klib_synch_spinlock_unlock 2)]"
    by simp
  with run h1 h2 h3 h4 show ?thesis
    by blast
qed

subsection \<open>Enumeration of the processors\<close>

lemma count_lapic_subtables_fields:
  "processor_count (count_lapic_subtables ss st) =
     processor_count st + of_nat (length (filter (\<lambda>s. subtable_Type s = SUBTABLE_LAPIC_TYPE) ss))"
  "proc_info_block (count_lapic_subtables ss st) = proc_info_block st"
  "inter_proc_signals (count_lapic_subtables ss st) = inter_proc_signals st"
  "trace (count_lapic_subtables ss st) = trace st"
  by (induction ss arbitrary: st) simp_all

lemma store_processor_id_fields [simp]:
  "processor_count (store_processor_id i v st) = processor_count st"
  "proc_info_block (store_processor_id i v st) =
     (proc_info_block st)[unat i := (proc_info_block st ! unat i)\<lparr>processor_id := v\<rparr>]"
  "inter_proc_signals (store_processor_id i v st) = inter_proc_signals st"
  "trace (store_processor_id i v st) = trace st"
  by (simp_all add: store_processor_id_def)

lemma store_lapic_id_fields [simp]:
  "processor_count (store_lapic_id i v st) = processor_count st"
  "proc_info_block (store_lapic_id i v st) =
     (proc_info_block st)[unat i := (proc_info_block st ! unat i)\<lparr>lapic_id := v\<rparr>]"
  "inter_proc_signals (store_lapic_id i v st) = inter_proc_signals st"
  "trace (store_lapic_id i v st) = trace st"
  by (simp_all add: store_lapic_id_def)

lemma save_lapic_subtables_table:
  "length (proc_info_block st) = unat (processor_count st) \<Longrightarrow>
   unat procs_saved + length (filter (\<lambda>s. subtable_Type s = SUBTABLE_LAPIC_TYPE) ss)
     \<le> unat (processor_count st) \<Longrightarrow>
   \<exists>st'. save_lapic_subtables cpu ss procs_saved st =
            Returns (procs_saved + of_nat (length (filter (\<lambda>s. subtable_Type s = SUBTABLE_LAPIC_TYPE) ss))) st'
      \<and> processor_count st' = processor_count st
      \<and> inter_proc_signals st' = inter_proc_signals st
      \<and> length (proc_info_block st') = length (proc_info_block st)
      \<and> (\<forall>j < unat procs_saved. proc_info_block st' ! j = proc_info_block st ! j)
      \<and> (\<forall>j < length (filter (\<lambda>s. subtable_Type s = SUBTABLE_LAPIC_TYPE) ss).
            proc_info_block st' ! (unat procs_saved + j) =
              \<lparr>processor_id = procs_saved + of_nat j, processor_running = False,
               lapic_id = ucast (lapic_Id (filter (\<lambda>s. subtable_Type s = SUBTABLE_LAPIC_TYPE) ss ! j))\<rparr>)"
proof (induction ss arbitrary: procs_saved st)
  case Nil
  then show ?case by simp
next
  case (Cons s ss)
  let ?P = "\<lambda>s. subtable_Type s = SUBTABLE_LAPIC_TYPE"
  show ?case
  proof (cases "?P s")
    case False
    then show ?thesis
      using Cons.IH [of st procs_saved] Cons.prems by simp
  next
    case True
    let ?p = "unat procs_saved"
    have room: "?p + 1 + length (filter ?P ss) \<le> unat (processor_count st)"
      using Cons.prems True by simp
    then have lt: "procs_saved < processor_count st"
      by (simp add: word_less_nat_alt)
    have inb: "?p < length (proc_info_block st)"
      using room Cons.prems by simp
    have succ: "unat (procs_saved + 1) = Suc ?p"
      using lt by (rule unat_succ_less)
    define st3 where "st3 = store_lapic_id procs_saved (ucast (lapic_Id s))
       (store_processor_running cpu procs_saved False (store_processor_id procs_saved procs_saved st))"
    have tbl3: "proc_info_block st3 = (proc_info_block st)[?p :=
        \<lparr>processor_id = procs_saved, processor_running = False, lapic_id = ucast (lapic_Id s)\<rparr>]"
      using inb by (cases "proc_info_block st ! ?p") (simp add: st3_def)
    have cnt3: "processor_count st3 = processor_count st"
      and sig3: "inter_proc_signals st3 = inter_proc_signals st"
      by (simp_all add: st3_def)
    have step: "save_lapic_subtables cpu (s # ss) procs_saved st =
                save_lapic_subtables cpu ss (procs_saved + 1) st3"
      using True lt inb by (simp add: st3_def Let_def)
    have "length (proc_info_block st3) = unat (processor_count st3)"
      using Cons.prems by (simp add: tbl3 cnt3)
    moreover have "unat (procs_saved + 1) + length (filter ?P ss) \<le> unat (processor_count st3)"
      using room by (simp add: succ cnt3)
    ultimately obtain st' where
      run: "save_lapic_subtables cpu ss (procs_saved + 1) st3 =
              Returns (procs_saved + 1 + of_nat (length (filter ?P ss))) st'"
      and cnt: "processor_count st' = processor_count st3"
      and sig: "inter_proc_signals st' = inter_proc_signals st3"
      and len: "length (proc_info_block st') = length (proc_info_block st3)"
      and low: "\<forall>j < unat (procs_saved + 1). proc_info_block st' ! j = proc_info_block st3 ! j"
      and high: "\<forall>j < length (filter ?P ss).
            proc_info_block st' ! (unat (procs_saved + 1) + j) =
              \<lparr>processor_id = procs_saved + 1 + of_nat j, processor_running = False,
               lapic_id = ucast (lapic_Id (filter ?P ss ! j))\<rparr>"
      using Cons.IH [of st3 "procs_saved + 1"] by blast
    have a: "\<forall>j < ?p. proc_info_block st' ! j = proc_info_block st ! j"
      using low by (simp add: succ tbl3)
    have b: "proc_info_block st' ! (?p + j) =
              \<lparr>processor_id = procs_saved + of_nat j, processor_running = False,
               lapic_id = ucast (lapic_Id (filter ?P (s # ss) ! j))\<rparr>"
      if "j < length (filter ?P (s # ss))" for j
    proof (cases j)
      case 0
      then show ?thesis
        using low inb True by (simp add: succ tbl3)
    next
      case (Suc j')
      then have "j' < length (filter ?P ss)"
        using that True by simp
      then show ?thesis
        using high True Suc by (simp add: succ add.assoc)
    qed
    have r: "save_lapic_subtables cpu (s # ss) procs_saved st =
               Returns (procs_saved + of_nat (length (filter ?P (s # ss)))) st'"
      unfolding step using run True by (simp add: add.assoc)
    have c: "\<forall>j < length (filter ?P (s # ss)). proc_info_block st' ! (?p + j) =
              \<lparr>processor_id = procs_saved + of_nat j, processor_running = False,
               lapic_id = ucast (lapic_Id (filter ?P (s # ss) ! j))\<rparr>"
      using b by blast
    have "processor_count st' = processor_count st"
      and "inter_proc_signals st' = inter_proc_signals st"
      and "length (proc_info_block st') = length (proc_info_block st)"
      using cnt sig len by (simp_all add: cnt3 sig3 tbl3)
    with r a c show ?thesis
      by blast
  qed
qed

text \<open>
  Claim C3. For a MADT with \<open>k\<close> local APIC descriptors, the enumeration leaves a processor
  table of exactly \<open>k\<close> records (and \<^verbatim>\<open>processor_count = k\<close>); record \<open>i\<close> has
  \<^verbatim>\<open>processor_id = i\<close>, is not running, and has the \<^verbatim>\<open>Id\<close> of the \<open>i\<close>-th local APIC
  descriptor in iteration order as its \<^verbatim>\<open>lapic_id\<close>; subtables of other types leave no
  record. The count is a 32-bit number in the code, so \<open>k\<close> is below \<open>2 ^ 32\<close>: a MADT's
  length field has 32 bits, which no table with that many descriptors fits.
\<close>

theorem C3_enumeration:
  assumes tab: "AcpiGetTable env = Some madt"
    and len: "sizeof_acpi_table_madt < Header_Length madt"
    and k: "length (local_apic_descriptors madt) < 2 ^ 32"
  shows "\<exists>st'. proc_mp_init_enumerate env cpu st =
                 Returns (of_nat (length (local_apic_descriptors madt))) st'
      \<and> unat (processor_count st') = length (local_apic_descriptors madt)
      \<and> length (proc_info_block st') = length (local_apic_descriptors madt)
      \<and> (\<forall>i < length (local_apic_descriptors madt).
            proc_info_block st' ! i =
              \<lparr>processor_id = of_nat i, processor_running = False,
               lapic_id = ucast (lapic_Id (local_apic_descriptors madt ! i))\<rparr>)"
proof -
  let ?ds = "local_apic_descriptors madt"
  define st2 where "st2 = count_lapic_subtables (subtables madt) (st\<lparr>processor_count := 0\<rparr>)"
  define st3 where "st3 = st2\<lparr>proc_info_block :=
                            replicate (unat (processor_count st2)) (new_processor_info env),
                          inter_proc_signals :=
                            replicate (unat (processor_count st2)) (new_proc_mp_ipi_msg_state env)\<rparr>"
  have cnt2: "processor_count st2 = of_nat (length ?ds)"
    by (simp add: st2_def count_lapic_subtables_fields local_apic_descriptors_def)
  have ucnt: "unat (processor_count st2) = length ?ds"
    using k by (simp add: cnt2 unat_of_nat)
  have cnt3: "processor_count st3 = processor_count st2"
    and len3: "length (proc_info_block st3) = unat (processor_count st3)"
    by (simp_all add: st3_def)
  have room: "unat (0 :: 32 word)
                + length (filter (\<lambda>s. subtable_Type s = SUBTABLE_LAPIC_TYPE) (subtables madt))
              \<le> unat (processor_count st3)"
    using ucnt by (simp add: cnt3 local_apic_descriptors_def)
  from save_lapic_subtables_table [OF len3 room, of cpu]
  obtain st' where
    run: "save_lapic_subtables cpu (subtables madt) 0 st3 = Returns (of_nat (length ?ds)) st'"
    and cnt: "processor_count st' = processor_count st3"
    and tlen: "length (proc_info_block st') = length (proc_info_block st3)"
    and recs: "\<forall>j < length ?ds. proc_info_block st' ! j =
              \<lparr>processor_id = of_nat j, processor_running = False,
               lapic_id = ucast (lapic_Id (?ds ! j))\<rparr>"
    unfolding local_apic_descriptors_def by auto
  have "proc_mp_init_enumerate env cpu st = Returns (of_nat (length ?ds)) st'"
    using tab len run by (simp add: proc_mp_init_enumerate_def Let_def st2_def st3_def)
  moreover have "unat (processor_count st') = length ?ds"
    by (simp add: cnt cnt3 ucnt)
  moreover have "length (proc_info_block st') = length ?ds"
    by (simp add: tlen len3 cnt3 ucnt)
  ultimately show ?thesis
    using recs by blast
qed

theorem C3_enumeration_witness:
  "AcpiGetTable example_env = Some example_madt
   \<and> sizeof_acpi_table_madt < Header_Length example_madt
   \<and> length (local_apic_descriptors example_madt) < 2 ^ 32
   \<and> length (local_apic_descriptors example_madt) = 4
   \<and> (\<exists>st'. proc_mp_init_enumerate example_env 0 boot_state = Returns 4 st'
        \<and> unat (processor_count st') = 4
        \<and> length (proc_info_block st') = 4
        \<and> proc_info_block st' ! 2 = \<lparr>processor_id = 2, processor_running = False, lapic_id = 3\<rparr>
        \<and> proc_info_block st' ! 3 = \<lparr>processor_id = 3, processor_running = False, lapic_id = 7\<rparr>)"
proof -
  have h1: "AcpiGetTable example_env = Some example_madt"
    by (simp add: example_env_def)
  have h2: "sizeof_acpi_table_madt < Header_Length example_madt"
    by (simp add: sizeof_acpi_table_madt_def example_madt_def)
  have ds: "local_apic_descriptors example_madt =
      [\<lparr>subtable_Type = 0, lapic_ProcessorId = 0, lapic_Id = 0\<rparr>,
       \<lparr>subtable_Type = 0, lapic_ProcessorId = 1, lapic_Id = 1\<rparr>,
       \<lparr>subtable_Type = 0, lapic_ProcessorId = 2, lapic_Id = 3\<rparr>,
       \<lparr>subtable_Type = 0, lapic_ProcessorId = 3, lapic_Id = 7\<rparr>]"
    by (simp add: local_apic_descriptors_def example_madt_def SUBTABLE_LAPIC_TYPE_def)
  have h3: "length (local_apic_descriptors example_madt) < 2 ^ 32"
    by (simp add: ds)
  from C3_enumeration [OF h1 h2 h3, of 0 boot_state]
  obtain st' where "proc_mp_init_enumerate example_env 0 boot_state = Returns 4 st'"
    and "unat (processor_count st') = 4"
    and "length (proc_info_block st') = 4"
    and r: "\<forall>i < 4. proc_info_block st' ! i =
              \<lparr>processor_id = of_nat i, processor_running = False,
               lapic_id = ucast (lapic_Id (local_apic_descriptors example_madt ! i))\<rparr>"
    by (auto simp: ds)
  moreover have "proc_info_block st' ! 2 = \<lparr>processor_id = 2, processor_running = False, lapic_id = 3\<rparr>"
    using r [rule_format, of 2] by (simp add: ds)
  moreover have "proc_info_block st' ! 3 = \<lparr>processor_id = 3, processor_running = False, lapic_id = 7\<rparr>"
    using r [rule_format, of 3] by (simp add: ds)
  ultimately show ?thesis
    using h1 h2 h3 by (auto simp: ds)
qed

subsection \<open>A MADT without local APIC descriptors\<close>

lemma save_lapic_subtables_none:
  "filter (\<lambda>s. subtable_Type s = SUBTABLE_LAPIC_TYPE) ss = [] \<Longrightarrow>
   save_lapic_subtables cpu ss procs_saved st = Returns procs_saved st"
  by (induction ss) (auto split: if_splits)

lemma fill_signals_loop_done:
  "processor_count st \<le> i \<Longrightarrow> fill_signals_loop cpu i st = Returns () st"
proof -
  assume "processor_count st \<le> i"
  then have "\<not> i < processor_count st"
    by (simp add: not_less)
  then show ?thesis
    by (subst fill_signals_loop.simps) simp
qed

lemma start_processors_loop_done:
  "processor_count st \<le> i \<Longrightarrow>
   start_processors_loop fuel env cpu wait_offset i st = Some (Returns () st)"
proof -
  assume "processor_count st \<le> i"
  then have "\<not> i < processor_count st"
    by (simp add: not_less)
  then show ?thesis
    by (subst start_processors_loop.simps) simp
qed

text \<open>
  Claim C7, as stated: a MADT in which the walk finds no local APIC descriptor makes
  \<open>proc_mp_init\<close> halt. With a MADT that holds an I/O APIC subtable only,
  \<open>proc_mp_init\<close> returns, with no processor and empty tables.
\<close>

theorem C7_no_local_apic_counterexample:
  "proc_mp_init 0 no_lapic_env 0 boot_state =
     Some (Returns ()
       \<lparr>processor_count = 0, proc_info_block = [], inter_proc_signals = [],
        trace = [(0, Call_proc_conf_interrupt_control_sys 0),
                 (0, Call_proc_conf_local_int_controller),
                 (0, Call_proc_configure_global_int_ctrlrs),
                 (0, Call_proc_recreate_gdt 0),
                 (0, Call_kl_memcpy 0x1000 100),
                 (0, Call_asm_proc_start_interrupts)]\<rparr>)"
  by code_simp

text \<open>
  Claim C7, amended. With a MADT in which the walk finds no local APIC descriptor,
  \<open>proc_mp_init\<close> halts when the table's \<^verbatim>\<open>Header.Length\<close> does not exceed the size of the
  fixed MADT header (there is no subtable at all); when it does, the table is not treated
  as invalid: \<open>proc_mp_init\<close> returns with \<^verbatim>\<open>processor_count = 0\<close>, an empty processor
  table and no signal slot, having configured the interrupt controllers, recreated the
  GDT, copied the trampoline and enabled interrupts, and having sent no IPI.
\<close>

theorem C7_no_local_apic:
  assumes tab: "AcpiGetTable env = Some madt"
    and none: "local_apic_descriptors madt = []"
  shows "(Header_Length madt \<le> sizeof_acpi_table_madt \<longrightarrow>
            proc_mp_init fuel env cpu st =
              Some (Fatal (AssertFailed ''madt_table->Header.Length > sizeof(acpi_table_madt)'') st))
       \<and> (sizeof_acpi_table_madt < Header_Length madt \<longrightarrow>
            (\<exists>st'. proc_mp_init fuel env cpu st = Some (Returns () st')
               \<and> processor_count st' = 0
               \<and> proc_info_block st' = []
               \<and> inter_proc_signals st' = []
               \<and> trace st' = trace st @
                    [(cpu, Call_proc_conf_interrupt_control_sys 0),
                     (cpu, Call_proc_conf_local_int_controller),
                     (cpu, Call_proc_configure_global_int_ctrlrs),
                     (cpu, Call_proc_recreate_gdt 0),
                     (cpu, Call_kl_memcpy 0x1000 (trampoline_length env)),
                     (cpu, Call_asm_proc_start_interrupts)]))"
proof (intro conjI impI)
  assume "Header_Length madt \<le> sizeof_acpi_table_madt"
  then show "proc_mp_init fuel env cpu st =
      Some (Fatal (AssertFailed ''madt_table->Header.Length > sizeof(acpi_table_madt)'') st)"
    using tab by (simp add: proc_mp_init_def proc_mp_init_enumerate_def not_less)
next
  assume big: "sizeof_acpi_table_madt < Header_Length madt"
  have f: "filter (\<lambda>s. subtable_Type s = SUBTABLE_LAPIC_TYPE) (subtables madt) = []"
    using none by (simp add: local_apic_descriptors_def)
  define st2 where "st2 = count_lapic_subtables (subtables madt) (st\<lparr>processor_count := 0\<rparr>)"
  have cnt2: "processor_count st2 = 0" and tr2: "trace st2 = trace st"
    by (simp_all add: st2_def count_lapic_subtables_fields f)
  define st3 where "st3 = st2\<lparr>proc_info_block :=
                            replicate (unat (processor_count st2)) (new_processor_info env),
                          inter_proc_signals :=
                            replicate (unat (processor_count st2)) (new_proc_mp_ipi_msg_state env)\<rparr>"
  have f3: "processor_count st3 = 0" "proc_info_block st3 = []" "inter_proc_signals st3 = []"
    "trace st3 = trace st"
    by (simp_all add: st3_def cnt2 tr2)
  have enum: "proc_mp_init_enumerate env cpu st = Returns 0 st3"
    using tab big
    by (simp add: proc_mp_init_enumerate_def Let_def save_lapic_subtables_none [OF f]
        st2_def [symmetric] st3_def [symmetric])
  show "\<exists>st'. proc_mp_init fuel env cpu st = Some (Returns () st')
               \<and> processor_count st' = 0
               \<and> proc_info_block st' = []
               \<and> inter_proc_signals st' = []
               \<and> trace st' = trace st @
                    [(cpu, Call_proc_conf_interrupt_control_sys 0),
                     (cpu, Call_proc_conf_local_int_controller),
                     (cpu, Call_proc_configure_global_int_ctrlrs),
                     (cpu, Call_proc_recreate_gdt 0),
                     (cpu, Call_kl_memcpy 0x1000 (trampoline_length env)),
                     (cpu, Call_asm_proc_start_interrupts)]"
    by (simp add: proc_mp_init_def enum Let_def f3 fill_signals_loop_done start_processors_loop_done)
qed

theorem C7_no_local_apic_witness:
  "AcpiGetTable no_lapic_env = Some no_lapic_madt
   \<and> local_apic_descriptors no_lapic_madt = []
   \<and> sizeof_acpi_table_madt < Header_Length no_lapic_madt
   \<and> (\<exists>st'. proc_mp_init 0 no_lapic_env 0 boot_state = Some (Returns () st')
         \<and> processor_count st' = 0 \<and> proc_info_block st' = [])
   \<and> proc_mp_init 0 (no_lapic_env\<lparr>AcpiGetTable := Some (no_lapic_madt\<lparr>Header_Length := 44\<rparr>)\<rparr>) 0 boot_state =
       Some (Fatal (AssertFailed ''madt_table->Header.Length > sizeof(acpi_table_madt)'') boot_state)"
proof -
  have h1: "AcpiGetTable no_lapic_env = Some no_lapic_madt"
    by (simp add: no_lapic_env_def)
  have h2: "local_apic_descriptors no_lapic_madt = []"
    by (simp add: local_apic_descriptors_def no_lapic_madt_def SUBTABLE_LAPIC_TYPE_def)
  have h3: "sizeof_acpi_table_madt < Header_Length no_lapic_madt"
    by (simp add: sizeof_acpi_table_madt_def no_lapic_madt_def)
  have g1: "AcpiGetTable (no_lapic_env\<lparr>AcpiGetTable := Some (no_lapic_madt\<lparr>Header_Length := 44\<rparr>)\<rparr>)
              = Some (no_lapic_madt\<lparr>Header_Length := 44\<rparr>)"
    by simp
  have g2: "local_apic_descriptors (no_lapic_madt\<lparr>Header_Length := 44\<rparr>) = []"
    by (simp add: local_apic_descriptors_def no_lapic_madt_def SUBTABLE_LAPIC_TYPE_def)
  have g3: "Header_Length (no_lapic_madt\<lparr>Header_Length := 44\<rparr>) \<le> sizeof_acpi_table_madt"
    by (simp add: sizeof_acpi_table_madt_def)
  show ?thesis
    using h1 h2 h3 C7_no_local_apic [OF h1 h2, of 0 0 boot_state]
      g3 C7_no_local_apic [OF g1 g2, of 0 0 boot_state]
    by auto
qed

subsection \<open>Starting the processors\<close>

lemma lapic_id_running_update:
  "map lapic_id (tbl[n := (tbl ! n)\<lparr>processor_running := b\<rparr>]) = map lapic_id tbl"
proof (rule nth_equalityI)
  show "length (map lapic_id (tbl[n := (tbl ! n)\<lparr>processor_running := b\<rparr>])) = length (map lapic_id tbl)"
    by simp
next
  fix i
  assume "i < length (map lapic_id (tbl[n := (tbl ! n)\<lparr>processor_running := b\<rparr>]))"
  then have "i < length tbl"
    by simp
  then show "map lapic_id (tbl[n := (tbl ! n)\<lparr>processor_running := b\<rparr>]) ! i = map lapic_id tbl ! i"
    by (cases "i = n") simp_all
qed

lemma wait_for_running_keeps:
  "wait_for_running fuel env i end_time k tbl = Some tbl' \<Longrightarrow>
   length tbl' = length tbl \<and> map lapic_id tbl' = map lapic_id tbl"
proof (induction fuel arbitrary: k tbl)
  case 0
  then show ?case by simp
next
  case (Suc fuel)
  define tbl1 where "tbl1 = (if ap_running_after env i = Some k
                  then tbl[unat i := (tbl ! unat i)\<lparr>processor_running := True\<rparr>] else tbl)"
  have keep: "length tbl1 = length tbl \<and> map lapic_id tbl1 = map lapic_id tbl"
    by (simp add: tbl1_def lapic_id_running_update)
  show ?case
  proof (cases "time_get_system_timer_count env i k < end_time
            \<and> processor_running (tbl1 ! unat i) = False")
    case True
    then have "wait_for_running fuel env i end_time (Suc k) tbl1 = Some tbl'"
      using Suc.prems by (simp add: tbl1_def Let_def)
    then show ?thesis
      using Suc.IH keep by metis
  next
    case False
    then have "tbl' = tbl1"
      using Suc.prems by (auto simp: tbl1_def Let_def)
    then show ?thesis
      using keep by simp
  qed
qed

lemma spec_boot_actions_cong:
  "lapic_id r = lapic_id r' \<Longrightarrow> spec_boot_actions cpu i r = spec_boot_actions cpu i r'"
  by (simp add: spec_boot_actions_def)

lemma spec_boot_trace_cong:
  assumes "map lapic_id a = map lapic_id b" and "n \<le> length a"
  shows "spec_boot_trace cpu a m n = spec_boot_trace cpu b m n"
proof -
  have len: "length a = length b"
    using assms(1) by (rule map_eq_imp_length_eq)
  have "spec_boot_actions cpu (of_nat j) (a ! j) = spec_boot_actions cpu (of_nat j) (b ! j)"
    if "j < n" for j
  proof -
    have "j < length a" "j < length b"
      using that assms(2) len by simp_all
    then have "lapic_id (a ! j) = map lapic_id a ! j" "lapic_id (b ! j) = map lapic_id b ! j"
      by simp_all
    then show ?thesis
      using assms(1) by (simp add: spec_boot_actions_cong)
  qed
  then have "map (\<lambda>j. spec_boot_actions cpu (of_nat j) (a ! j)) [m..<n] =
             map (\<lambda>j. spec_boot_actions cpu (of_nat j) (b ! j)) [m..<n]"
    by (intro map_cong) simp_all
  then show ?thesis
    by (simp only: spec_boot_trace_def)
qed

lemma spec_boot_trace_step:
  "m < n \<Longrightarrow> spec_boot_trace cpu tbl m n =
     spec_boot_actions cpu (of_nat m) (tbl ! m) @ spec_boot_trace cpu tbl (Suc m) n"
  by (simp add: spec_boot_trace_def upt_conv_Cons)

lemma spec_boot_trace_empty:
  "n \<le> m \<Longrightarrow> spec_boot_trace cpu tbl m n = []"
  by (simp add: spec_boot_trace_def)

lemma startup_vector: "(ucast (drop_bit 12 TRAMPOLINE_PADDR) :: 8 word) = 1"
  by (simp add: TRAMPOLINE_PADDR_def)

lemma running_update_id:
  "processor_running r \<Longrightarrow> r\<lparr>processor_running := True\<rparr> = r"
  by (cases r) simp

lemma wait_for_running_result:
  "wait_for_running fuel env i end_time k tbl = Some tbl' \<Longrightarrow>
   tbl' = tbl \<or> tbl' = tbl[unat i := (tbl ! unat i)\<lparr>processor_running := True\<rparr>]"
proof (induction fuel arbitrary: k tbl)
  case 0
  then show ?case by simp
next
  case (Suc fuel)
  define tbl1 where "tbl1 = (if ap_running_after env i = Some k
                  then tbl[unat i := (tbl ! unat i)\<lparr>processor_running := True\<rparr>] else tbl)"
  have one: "tbl1 = tbl \<or> tbl1 = tbl[unat i := (tbl ! unat i)\<lparr>processor_running := True\<rparr>]"
    by (simp add: tbl1_def)
  have again: "tbl1[unat i := (tbl1 ! unat i)\<lparr>processor_running := True\<rparr>] =
               tbl[unat i := (tbl ! unat i)\<lparr>processor_running := True\<rparr>]"
    by (cases "unat i < length tbl") (auto simp: tbl1_def not_less list_update_beyond)
  show ?case
  proof (cases "time_get_system_timer_count env i k < end_time
            \<and> processor_running (tbl1 ! unat i) = False")
    case True
    then have "wait_for_running fuel env i end_time (Suc k) tbl1 = Some tbl'"
      using Suc.prems by (simp add: tbl1_def Let_def)
    then have "tbl' = tbl1 \<or> tbl' = tbl1[unat i := (tbl1 ! unat i)\<lparr>processor_running := True\<rparr>]"
      by (rule Suc.IH)
    then show ?thesis
      using one again by auto
  next
    case False
    then have "tbl' = tbl1"
      using Suc.prems by (auto simp: tbl1_def Let_def)
    then show ?thesis
      using one by simp
  qed
qed

lemma spec_boot_table_nth:
  "j < length tbl \<Longrightarrow>
   spec_boot_table tbl n ! j = (if j < n then (tbl ! j)\<lparr>processor_running := True\<rparr> else tbl ! j)"
  by (auto simp: spec_boot_table_def nth_append min_def)

lemma spec_boot_table_length [simp]: "length (spec_boot_table tbl n) = length tbl"
  by (simp add: spec_boot_table_def)


lemma wait_for_running_changed:
  "wait_for_running fuel env i end_time k tbl = Some tbl' \<Longrightarrow>
   \<not> processor_running (tbl ! unat i) \<Longrightarrow> processor_running (tbl' ! unat i) \<Longrightarrow>
   ap_running_after env i \<noteq> None"
proof (induction fuel arbitrary: k)
  case 0
  then show ?case by simp
next
  case (Suc fuel)
  show ?case
  proof (cases "ap_running_after env i = Some k")
    case True
    then show ?thesis by simp
  next
    case False
    show ?thesis
    proof (cases "time_get_system_timer_count env i k < end_time")
      case True
      then have "wait_for_running fuel env i end_time (Suc k) tbl = Some tbl'"
        using Suc.prems(1,2) False by (simp add: Let_def)
      then show ?thesis
        using Suc.IH Suc.prems(2,3) by blast
    next
      case True': False
      then have "tbl' = tbl"
        using Suc.prems(1) False by (simp add: Let_def)
      then show ?thesis
        using Suc.prems(2,3) by simp
    qed
  qed
qed

lemma start_processors_loop_effect:
  "unat (processor_count st) - unat i = d \<Longrightarrow>
   length (proc_info_block st) = unat (processor_count st) \<Longrightarrow>
   start_processors_loop fuel env cpu wait_offset i st = Some out \<Longrightarrow>
   (\<forall>st'. out = Returns () st' \<longrightarrow>
      trace st' = trace st @
        spec_boot_trace cpu (proc_info_block st) (unat i) (length (proc_info_block st))
      \<and> processor_count st' = processor_count st
      \<and> inter_proc_signals st' = inter_proc_signals st
      \<and> length (proc_info_block st') = length (proc_info_block st)
      \<and> (\<forall>j < length (proc_info_block st).
            proc_info_block st' ! j =
              (if unat i \<le> j then (proc_info_block st ! j)\<lparr>processor_running := True\<rparr>
               else proc_info_block st ! j))
      \<and> (\<forall>j. unat i \<le> j \<and> j < length (proc_info_block st)
               \<and> lapic_id (proc_info_block st ! j) \<noteq> cpu
               \<and> \<not> processor_running (proc_info_block st ! j) \<longrightarrow>
             ap_running_after env (of_nat j) \<noteq> None))
   \<and> (\<forall>e st'. out = Fatal e st' \<longrightarrow>
        (\<exists>n. unat i \<le> n \<and> n < length (proc_info_block st)
           \<and> lapic_id (proc_info_block st ! n) \<noteq> cpu
           \<and> e = AssertFailed ''proc_info_block[i].processor_running''
           \<and> trace st' = trace st @ spec_boot_trace cpu (proc_info_block st) (unat i) (Suc n)
           \<and> processor_count st' = processor_count st
           \<and> inter_proc_signals st' = inter_proc_signals st
           \<and> length (proc_info_block st') = length (proc_info_block st)
           \<and> \<not> processor_running (proc_info_block st' ! n)
           \<and> (\<forall>j < length (proc_info_block st).
                 proc_info_block st' ! j =
                   (if unat i \<le> j \<and> j < n
                    then (proc_info_block st ! j)\<lparr>processor_running := True\<rparr>
                    else proc_info_block st ! j))
           \<and> (\<forall>j. unat i \<le> j \<and> j < n
                    \<and> lapic_id (proc_info_block st ! j) \<noteq> cpu
                    \<and> \<not> processor_running (proc_info_block st ! j) \<longrightarrow>
                  ap_running_after env (of_nat j) \<noteq> None)))"
proof (induction d arbitrary: i st out)
  case 0
  then have "\<not> i < processor_count st"
    by (simp add: word_less_nat_alt)
  then have "out = Returns () st"
    using "0.prems"(3) by (subst (asm) start_processors_loop.simps) simp
  moreover have "length (proc_info_block st) \<le> unat i"
    using 0 by simp
  ultimately show ?case
    by (auto simp: spec_boot_trace_empty)
next
  case (Suc d)
  let ?tbl = "proc_info_block st"
  let ?i = "unat i"
  let ?up = "?tbl[?i := (?tbl ! ?i)\<lparr>processor_running := True\<rparr>]"
  have lt: "i < processor_count st"
    using Suc.prems(1) by (simp add: word_less_nat_alt)
  have inb: "?i < length ?tbl"
    using Suc.prems(1,2) by simp
  have succ: "unat (i + 1) = Suc ?i"
    using lt by (rule unat_succ_less)
  have wi: "of_nat ?i = i"
    by simp
  have head: "spec_boot_trace cpu ?tbl ?i (length ?tbl) =
      spec_boot_actions cpu i (?tbl ! ?i) @ spec_boot_trace cpu ?tbl (Suc ?i) (length ?tbl)"
    using spec_boot_trace_step [OF inb, of cpu ?tbl] by (simp add: wi)
  have head_only: "spec_boot_trace cpu ?tbl ?i (Suc ?i) = spec_boot_actions cpu i (?tbl ! ?i)"
    using spec_boot_trace_step [of ?i "Suc ?i" cpu ?tbl] by (simp add: wi spec_boot_trace_empty)
  have head_more: "spec_boot_trace cpu ?tbl ?i (Suc n) =
      spec_boot_actions cpu i (?tbl ! ?i) @ spec_boot_trace cpu ?tbl (Suc ?i) (Suc n)"
    if "?i \<le> n" for n
    using spec_boot_trace_step [of ?i "Suc n" cpu ?tbl] that by (simp add: wi)
  have ids: "map lapic_id ?up = map lapic_id ?tbl"
    by (rule lapic_id_running_update)
  have eqt: "spec_boot_trace cpu ?up a b = spec_boot_trace cpu ?tbl a b"
    if "b \<le> length ?tbl" for a b
    using spec_boot_trace_cong [OF ids, of b cpu a] that by simp
  have continue: ?case
    if run: "start_processors_loop fuel env cpu wait_offset (i + 1) sn = Some out"
      and tb: "proc_info_block sn = ?up"
      and cn: "processor_count sn = processor_count st"
      and sg: "inter_proc_signals sn = inter_proc_signals st"
      and tr: "trace sn = trace st @ spec_boot_actions cpu i (?tbl ! ?i)"
      and ev: "lapic_id (?tbl ! ?i) \<noteq> cpu \<and> \<not> processor_running (?tbl ! ?i) \<longrightarrow>
               ap_running_after env i \<noteq> None"
    for sn
  proof -
    have m: "unat (processor_count sn) - unat (i + 1) = d"
      using Suc.prems(1) by (simp add: cn succ)
    have l: "length (proc_info_block sn) = unat (processor_count sn)"
      using Suc.prems(2) by (simp add: cn tb)
    note ih = Suc.IH [OF m l run]
    have ret: "trace st' = trace st @ spec_boot_trace cpu ?tbl ?i (length ?tbl)
        \<and> processor_count st' = processor_count st
        \<and> inter_proc_signals st' = inter_proc_signals st
        \<and> length (proc_info_block st') = length ?tbl
        \<and> (\<forall>j < length ?tbl. proc_info_block st' ! j =
              (if ?i \<le> j then (?tbl ! j)\<lparr>processor_running := True\<rparr> else ?tbl ! j))
        \<and> (\<forall>j. ?i \<le> j \<and> j < length ?tbl \<and> lapic_id (?tbl ! j) \<noteq> cpu
               \<and> \<not> processor_running (?tbl ! j) \<longrightarrow>
             ap_running_after env (of_nat j) \<noteq> None)"
      if r: "out = Returns () st'" for st'
    proof -
      from ih r have a: "trace st' = trace sn @
            spec_boot_trace cpu (proc_info_block sn) (Suc ?i) (length (proc_info_block sn))"
        and b: "processor_count st' = processor_count sn"
        and c: "inter_proc_signals st' = inter_proc_signals sn"
        and e: "length (proc_info_block st') = length (proc_info_block sn)"
        and f: "\<forall>j < length (proc_info_block sn). proc_info_block st' ! j =
              (if Suc ?i \<le> j then (proc_info_block sn ! j)\<lparr>processor_running := True\<rparr>
               else proc_info_block sn ! j)"
        and g: "\<forall>j. Suc ?i \<le> j \<and> j < length (proc_info_block sn)
               \<and> lapic_id (proc_info_block sn ! j) \<noteq> cpu
               \<and> \<not> processor_running (proc_info_block sn ! j) \<longrightarrow>
             ap_running_after env (of_nat j) \<noteq> None"
        by (simp_all add: succ)
      have t: "proc_info_block st' ! j =
              (if ?i \<le> j then (?tbl ! j)\<lparr>processor_running := True\<rparr> else ?tbl ! j)"
        if "j < length ?tbl" for j
        using f [rule_format, of j] that inb
        by (cases "j = ?i") (auto simp: tb nth_list_update)
      have h: "ap_running_after env (of_nat j) \<noteq> None"
        if "?i \<le> j" "j < length ?tbl" "lapic_id (?tbl ! j) \<noteq> cpu"
          "\<not> processor_running (?tbl ! j)" for j
      proof (cases "j = ?i")
        case True
        then show ?thesis
          using ev that by (simp add: wi)
      next
        case False
        then show ?thesis
          using g [rule_format, of j] that by (simp add: tb)
      qed
      show ?thesis
        using a b c e t h by (simp add: tb cn sg tr head eqt)
    qed
    have fat: "\<exists>n. ?i \<le> n \<and> n < length ?tbl \<and> lapic_id (?tbl ! n) \<noteq> cpu
           \<and> e = AssertFailed ''proc_info_block[i].processor_running''
           \<and> trace st' = trace st @ spec_boot_trace cpu ?tbl ?i (Suc n)
           \<and> processor_count st' = processor_count st
           \<and> inter_proc_signals st' = inter_proc_signals st
           \<and> length (proc_info_block st') = length ?tbl
           \<and> \<not> processor_running (proc_info_block st' ! n)
           \<and> (\<forall>j < length ?tbl. proc_info_block st' ! j =
                 (if ?i \<le> j \<and> j < n then (?tbl ! j)\<lparr>processor_running := True\<rparr>
                  else ?tbl ! j))
           \<and> (\<forall>j. ?i \<le> j \<and> j < n \<and> lapic_id (?tbl ! j) \<noteq> cpu
                  \<and> \<not> processor_running (?tbl ! j) \<longrightarrow>
                ap_running_after env (of_nat j) \<noteq> None)"
      if r: "out = Fatal e st'" for e st'
    proof -
      from ih r obtain n where n: "Suc ?i \<le> n" "n < length ?tbl"
        "lapic_id (proc_info_block sn ! n) \<noteq> cpu"
        "e = AssertFailed ''proc_info_block[i].processor_running''"
        "trace st' = trace sn @ spec_boot_trace cpu (proc_info_block sn) (Suc ?i) (Suc n)"
        "processor_count st' = processor_count sn"
        "inter_proc_signals st' = inter_proc_signals sn"
        "length (proc_info_block st') = length (proc_info_block sn)"
        "\<not> processor_running (proc_info_block st' ! n)"
        and f: "\<forall>j < length (proc_info_block sn). proc_info_block st' ! j =
              (if Suc ?i \<le> j \<and> j < n
               then (proc_info_block sn ! j)\<lparr>processor_running := True\<rparr>
               else proc_info_block sn ! j)"
        and g: "\<forall>j. Suc ?i \<le> j \<and> j < n
               \<and> lapic_id (proc_info_block sn ! j) \<noteq> cpu
               \<and> \<not> processor_running (proc_info_block sn ! j) \<longrightarrow>
             ap_running_after env (of_nat j) \<noteq> None"
        by (auto simp: succ tb)
      have same: "proc_info_block sn ! n = ?tbl ! n"
        using n(1) by (simp add: tb)
      have tabl: "proc_info_block st' ! j =
              (if ?i \<le> j \<and> j < n then (?tbl ! j)\<lparr>processor_running := True\<rparr> else ?tbl ! j)"
        if "j < length ?tbl" for j
        using f [rule_format, of j] that inb n(1)
        by (cases "j = ?i") (auto simp: tb nth_list_update)
      have "trace st' = trace st @ spec_boot_trace cpu ?tbl ?i (Suc n)"
        using n(1,2,5) head_more [of n] eqt [of "Suc n" "Suc ?i"] by (simp add: tb tr)
      moreover have "ap_running_after env (of_nat j) \<noteq> None"
        if "?i \<le> j" "j < n" "lapic_id (?tbl ! j) \<noteq> cpu"
          "\<not> processor_running (?tbl ! j)" for j
      proof (cases "j = ?i")
        case True
        then show ?thesis
          using ev that by (simp add: wi)
      next
        case False
        then show ?thesis
          using g [rule_format, of j] that by (simp add: tb)
      qed
      ultimately show ?thesis
        using n same tabl
        by (intro exI [of _ n]) (simp add: tb cn sg)
    qed
    show ?thesis
      using ret fat by blast
  qed
  show ?case
  proof (cases "lapic_id (?tbl ! ?i) = cpu")
    case True
    define st1 where "st1 = store_processor_running cpu i True st"
    have run: "start_processors_loop fuel env cpu wait_offset (i + 1) st1 = Some out"
      using Suc.prems(3) lt inb True
      by (subst (asm) start_processors_loop.simps) (simp add: st1_def)
    show ?thesis
      using True by (intro continue [OF run]) (simp_all add: st1_def spec_boot_actions_def)
  next
    case False
    define st3 where "st3 =
      emit cpu (Call_proc_send_ipi (lapic_id (?tbl ! ?i)) NONE STARTUP 1 True)
        (emit cpu (Call_time_stall_process 10000000)
          (emit cpu (Call_proc_send_ipi (lapic_id (?tbl ! ?i)) NONE INIT 0 True) st))"
    define end_time where "end_time = time_get_system_timer_count env i 0 + wait_offset"
    have tr3: "trace st3 = trace st @ spec_boot_actions cpu i (?tbl ! ?i)"
      and cnt3: "processor_count st3 = processor_count st"
      and sig3: "inter_proc_signals st3 = inter_proc_signals st"
      and tbl3: "proc_info_block st3 = ?tbl"
      using False by (simp_all add: st3_def spec_boot_actions_def startup_vector)
    obtain tbl where w: "wait_for_running fuel env i end_time 1 ?tbl = Some tbl"
      using Suc.prems(3) lt inb False
      by (subst (asm) start_processors_loop.simps)
         (auto simp: Let_def end_time_def split: option.splits)
    have shape: "tbl = ?tbl \<or> tbl = ?up"
      using wait_for_running_result [OF w] .
    define st4 where "st4 = st3\<lparr>proc_info_block := tbl\<rparr>"
    have f4: "trace st4 = trace st @ spec_boot_actions cpu i (?tbl ! ?i)"
      "processor_count st4 = processor_count st" "proc_info_block st4 = tbl"
      "inter_proc_signals st4 = inter_proc_signals st"
      by (simp_all add: st4_def tr3 cnt3 sig3)
    show ?thesis
    proof (cases "processor_running (tbl ! ?i)")
      case notrunning: False
      have out: "out = Fatal (AssertFailed ''proc_info_block[i].processor_running'') st4"
        using Suc.prems(3) lt inb False w notrunning
        by (subst (asm) start_processors_loop.simps)
           (simp add: Let_def end_time_def [symmetric] st3_def [symmetric] st4_def)
      have "tbl = ?tbl"
        using shape notrunning inb by auto
      then show ?thesis
        using out inb False f4 head_only notrunning
        by (intro conjI allI impI; (intro exI [of _ ?i])?) auto
    next
      case True
      have run: "start_processors_loop fuel env cpu wait_offset (i + 1) st4 = Some out"
        using Suc.prems(3) lt inb False w True
        by (subst (asm) start_processors_loop.simps)
           (simp add: Let_def end_time_def [symmetric] st3_def [symmetric] st4_def)
      have "tbl = ?up"
      proof (cases "tbl = ?tbl")
        case same: True
        then have "(?tbl ! ?i)\<lparr>processor_running := True\<rparr> = ?tbl ! ?i"
          using True by (simp add: running_update_id)
        then show ?thesis
          using same by simp
      next
        case False
        then show ?thesis
          using shape by simp
      qed
      moreover have "ap_running_after env i \<noteq> None" if "\<not> processor_running (?tbl ! ?i)"
        using wait_for_running_changed [OF w that True] .
      ultimately show ?thesis
        by (intro continue [OF run]) (simp_all add: f4)
    qed
  qed
qed

text \<open>
  The loop does end, in one of the two ways, when the fuel is enough for the timer to get
  past the end of each wait.
\<close>

lemma wait_for_running_ends:
  "\<not> time_get_system_timer_count env i (k + n) < end_time \<Longrightarrow> n < fuel \<Longrightarrow>
   \<exists>tbl'. wait_for_running fuel env i end_time k tbl = Some tbl'"
proof (induction fuel arbitrary: k n tbl)
  case 0
  then show ?case by simp
next
  case (Suc fuel)
  define tbl1 where "tbl1 = (if ap_running_after env i = Some k
                  then tbl[unat i := (tbl ! unat i)\<lparr>processor_running := True\<rparr>] else tbl)"
  show ?case
  proof (cases "time_get_system_timer_count env i k < end_time
            \<and> processor_running (tbl1 ! unat i) = False")
    case False
    then show ?thesis
      by (auto simp: tbl1_def Let_def)
  next
    case True
    have "n \<noteq> 0"
    proof
      assume "n = 0"
      then show False
        using Suc.prems(1) True by simp
    qed
    then obtain n' where n': "n = Suc n'"
      by (cases n) auto
    have "\<exists>tbl'. wait_for_running fuel env i end_time (Suc k) tbl1 = Some tbl'"
      using Suc.IH [of "Suc k" n' tbl1] Suc.prems n' by simp
    then show ?thesis
      using True by (simp add: tbl1_def Let_def)
  qed
qed

lemma start_processors_loop_ends:
  assumes timer: "\<forall>i. \<exists>n < fuel. \<not> time_get_system_timer_count env i (1 + n)
                      < time_get_system_timer_count env i 0 + wait_offset"
  shows "unat (processor_count st) - unat i = d \<Longrightarrow>
         \<exists>out. start_processors_loop fuel env cpu wait_offset i st = Some out"
proof (induction d arbitrary: i st)
  case 0
  then have "\<not> i < processor_count st"
    by (simp add: word_less_nat_alt)
  then show ?case
    by (subst start_processors_loop.simps) simp
next
  case (Suc d)
  have lt: "i < processor_count st"
    using Suc.prems by (simp add: word_less_nat_alt)
  have succ: "unat (i + 1) = Suc (unat i)"
    using lt by (rule unat_succ_less)
  have next_one: "\<exists>out. start_processors_loop fuel env cpu wait_offset (i + 1) st' = Some out"
    if "processor_count st' = processor_count st" for st'
    using Suc.IH [of st' "i + 1"] Suc.prems that by (simp add: succ)
  obtain n where n: "n < fuel" "\<not> time_get_system_timer_count env i (1 + n)
                      < time_get_system_timer_count env i 0 + wait_offset"
    using timer by blast
  obtain tbl where w: "wait_for_running fuel env i
      (time_get_system_timer_count env i 0 + wait_offset) 1 (proc_info_block st) = Some tbl"
    using wait_for_running_ends [OF n(2) n(1)] by blast
  show ?case
    using lt w next_one
    by (subst start_processors_loop.simps) (simp add: Let_def)
qed

text \<open>
  Claim C5. The loop that starts the processors goes through the table in order, one
  record at a time. Whenever it ends, what the bootstrap processor has done is, record
  after record from the first, what the specification's protocol says for that record:
  for a record with the executing processor's own LAPIC id, the store of its running flag
  and no IPI; for any other record one INIT IPI to its LAPIC id (no shorthand, waiting for
  delivery), a stall of 10 ms, and one STARTUP IPI with vector \<^verbatim>\<open>TRAMPOLINE_PADDR >> 12\<close>.

  \<^item> When the loop returns, this covers the whole table, and in the table every record
    has its running flag set and is otherwise as it was.
  \<^item> When it halts, it is at the assertion on a record \<open>n\<close> that is not the executing
    processor's: the actions cover the records up to \<open>n\<close>, the records before \<open>n\<close> have
    their flag set, the flag of record \<open>n\<close> is not set, and the later records are as they
    were.
  \<^item> In both cases the sequencer sets the flag of its own record only: a record of another
    processor that was not running and has been passed is one whose processor has set
    the flag itself. The count and the signal slots are unchanged.
  \<^item> The loop does end in one of these two ways when the fuel is enough for the timer to
    get past the end of each wait.
\<close>

theorem C5_boot_sequence:
  assumes "length (proc_info_block st) = unat (processor_count st)"
  shows "(\<forall>out. start_processors_loop fuel env cpu wait_offset 0 st = Some out \<longrightarrow>
           (\<forall>st'. out = Returns () st' \<longrightarrow>
              trace st' = trace st @
                spec_boot_trace cpu (proc_info_block st) 0 (length (proc_info_block st))
              \<and> proc_info_block st' =
                  spec_boot_table (proc_info_block st) (length (proc_info_block st))
              \<and> processor_count st' = processor_count st
              \<and> inter_proc_signals st' = inter_proc_signals st
              \<and> (\<forall>j < length (proc_info_block st).
                    lapic_id (proc_info_block st ! j) \<noteq> cpu
                    \<and> \<not> processor_running (proc_info_block st ! j) \<longrightarrow>
                    ap_running_after env (of_nat j) \<noteq> None))
           \<and> (\<forall>e st'. out = Fatal e st' \<longrightarrow>
                (\<exists>n < length (proc_info_block st).
                   lapic_id (proc_info_block st ! n) \<noteq> cpu
                   \<and> e = AssertFailed ''proc_info_block[i].processor_running''
                   \<and> trace st' = trace st @ spec_boot_trace cpu (proc_info_block st) 0 (Suc n)
                   \<and> proc_info_block st' = spec_boot_table (proc_info_block st) n
                   \<and> \<not> processor_running (proc_info_block st' ! n)
                   \<and> processor_count st' = processor_count st
                   \<and> inter_proc_signals st' = inter_proc_signals st
                   \<and> (\<forall>j < n.
                         lapic_id (proc_info_block st ! j) \<noteq> cpu
                         \<and> \<not> processor_running (proc_info_block st ! j) \<longrightarrow>
                         ap_running_after env (of_nat j) \<noteq> None))))
       \<and> ((\<forall>i. \<exists>n < fuel. \<not> time_get_system_timer_count env i (1 + n)
                      < time_get_system_timer_count env i 0 + wait_offset) \<longrightarrow>
            (\<exists>out. start_processors_loop fuel env cpu wait_offset 0 st = Some out))"
proof (intro conjI allI impI)
  let ?tbl = "proc_info_block st"
  {
    fix out st'
    assume run: "start_processors_loop fuel env cpu wait_offset 0 st = Some out"
      and r: "out = Returns () st'"
    from start_processors_loop_effect [OF refl assms run] r
    have a: "trace st' = trace st @ spec_boot_trace cpu ?tbl 0 (length ?tbl)"
      and b: "processor_count st' = processor_count st"
      and c: "inter_proc_signals st' = inter_proc_signals st"
      and l: "length (proc_info_block st') = length ?tbl"
      and t: "\<forall>j < length ?tbl. proc_info_block st' ! j = (?tbl ! j)\<lparr>processor_running := True\<rparr>"
      and g: "\<forall>j. j < length ?tbl \<and> lapic_id (?tbl ! j) \<noteq> cpu
                \<and> \<not> processor_running (?tbl ! j) \<longrightarrow> ap_running_after env (of_nat j) \<noteq> None"
      by simp_all
    show "trace st' = trace st @ spec_boot_trace cpu ?tbl 0 (length ?tbl)"
      by (rule a)
    show "proc_info_block st' = spec_boot_table ?tbl (length ?tbl)"
      using l t by (intro nth_equalityI) (simp_all add: spec_boot_table_nth)
    show "processor_count st' = processor_count st"
      by (rule b)
    show "inter_proc_signals st' = inter_proc_signals st"
      by (rule c)
    fix j
    assume "j < length ?tbl"
      and "lapic_id (?tbl ! j) \<noteq> cpu \<and> \<not> processor_running (?tbl ! j)"
    then show "ap_running_after env (of_nat j) \<noteq> None"
      using g by blast
  }
  {
    fix out e st'
    assume run: "start_processors_loop fuel env cpu wait_offset 0 st = Some out"
      and r: "out = Fatal e st'"
    from start_processors_loop_effect [OF refl assms run] r
    obtain n where n: "n < length ?tbl" "lapic_id (?tbl ! n) \<noteq> cpu"
      "e = AssertFailed ''proc_info_block[i].processor_running''"
      "trace st' = trace st @ spec_boot_trace cpu ?tbl 0 (Suc n)"
      "processor_count st' = processor_count st"
      "inter_proc_signals st' = inter_proc_signals st"
      "\<not> processor_running (proc_info_block st' ! n)"
      and l: "length (proc_info_block st') = length ?tbl"
      and t: "\<forall>j < length ?tbl. proc_info_block st' ! j =
                (if j < n then (?tbl ! j)\<lparr>processor_running := True\<rparr> else ?tbl ! j)"
      and g: "\<forall>j. j < n \<and> lapic_id (?tbl ! j) \<noteq> cpu
                \<and> \<not> processor_running (?tbl ! j) \<longrightarrow> ap_running_after env (of_nat j) \<noteq> None"
      by auto
    have "proc_info_block st' = spec_boot_table ?tbl n"
      using l t by (intro nth_equalityI) (simp_all add: spec_boot_table_nth)
    then show "\<exists>n < length ?tbl.
                   lapic_id (?tbl ! n) \<noteq> cpu
                   \<and> e = AssertFailed ''proc_info_block[i].processor_running''
                   \<and> trace st' = trace st @ spec_boot_trace cpu ?tbl 0 (Suc n)
                   \<and> proc_info_block st' = spec_boot_table ?tbl n
                   \<and> \<not> processor_running (proc_info_block st' ! n)
                   \<and> processor_count st' = processor_count st
                   \<and> inter_proc_signals st' = inter_proc_signals st
                   \<and> (\<forall>j < n.
                         lapic_id (?tbl ! j) \<noteq> cpu
                         \<and> \<not> processor_running (?tbl ! j) \<longrightarrow>
                         ap_running_after env (of_nat j) \<noteq> None)"
      using n g by blast
  }
  {
    assume "\<forall>i. \<exists>n < fuel. \<not> time_get_system_timer_count env i (1 + n)
                      < time_get_system_timer_count env i 0 + wait_offset"
    then show "\<exists>out. start_processors_loop fuel env cpu wait_offset 0 st = Some out"
      by (rule start_processors_loop_ends [OF _ refl])
  }
qed

theorem C5_boot_sequence_witness:
  "length (proc_info_block enumerated_state) = unat (processor_count enumerated_state)
   \<and> (\<forall>i. \<exists>n < 10. \<not> time_get_system_timer_count example_env i (1 + n)
                      < time_get_system_timer_count example_env i 0 + 10000000000)
   \<and> (\<exists>st'. start_processors_loop 10 example_env 0 10000000000 0 enumerated_state =
               Some (Returns () st')
         \<and> trace st' =
             [(0, Store_processor_running 0 True),
              (0, Call_proc_send_ipi 1 NONE INIT 0 True),
              (0, Call_time_stall_process 10000000),
              (0, Call_proc_send_ipi 1 NONE STARTUP 1 True),
              (0, Call_proc_send_ipi 3 NONE INIT 0 True),
              (0, Call_time_stall_process 10000000),
              (0, Call_proc_send_ipi 3 NONE STARTUP 1 True),
              (0, Call_proc_send_ipi 7 NONE INIT 0 True),
              (0, Call_time_stall_process 10000000),
              (0, Call_proc_send_ipi 7 NONE STARTUP 1 True)]
         \<and> proc_info_block st' =
             [\<lparr>processor_id = 0, processor_running = True, lapic_id = 0\<rparr>,
              \<lparr>processor_id = 1, processor_running = True, lapic_id = 1\<rparr>,
              \<lparr>processor_id = 2, processor_running = True, lapic_id = 3\<rparr>,
              \<lparr>processor_id = 3, processor_running = True, lapic_id = 7\<rparr>])
   \<and> (\<exists>st'. start_processors_loop 20 never_running_env 0 10000000000 0 enumerated_state =
               Some (Fatal (AssertFailed ''proc_info_block[i].processor_running'') st')
         \<and> trace st' =
             [(0, Store_processor_running 0 True),
              (0, Call_proc_send_ipi 1 NONE INIT 0 True),
              (0, Call_time_stall_process 10000000),
              (0, Call_proc_send_ipi 1 NONE STARTUP 1 True)]
         \<and> proc_info_block st' =
             [\<lparr>processor_id = 0, processor_running = True, lapic_id = 0\<rparr>,
              \<lparr>processor_id = 1, processor_running = False, lapic_id = 1\<rparr>,
              \<lparr>processor_id = 2, processor_running = False, lapic_id = 3\<rparr>,
              \<lparr>processor_id = 3, processor_running = False, lapic_id = 7\<rparr>])"
proof -
  let ?tbl = "proc_info_block enumerated_state"
  have h: "length ?tbl = unat (processor_count enumerated_state)"
    by (simp add: enumerated_state_def)
  have tbl: "?tbl =
        [\<lparr>processor_id = 0, processor_running = False, lapic_id = 0\<rparr>,
         \<lparr>processor_id = 1, processor_running = False, lapic_id = 1\<rparr>,
         \<lparr>processor_id = 2, processor_running = False, lapic_id = 3\<rparr>,
         \<lparr>processor_id = 3, processor_running = False, lapic_id = 7\<rparr>]"
    and tr: "trace enumerated_state = []"
    by (simp_all add: enumerated_state_def)
  have upt4: "[0..<4] = [0, 1, 2, 3]" and upt2: "[0..<2] = [0, 1]"
    by (simp_all add: upt_rec)
  have timer1: "\<forall>i. \<exists>n < 10. \<not> time_get_system_timer_count example_env i (1 + n)
                      < time_get_system_timer_count example_env i 0 + 10000000000"
    by (intro allI exI [of _ 9]) (simp add: example_env_def)
  have timer2: "\<forall>i. \<exists>n < 20. \<not> time_get_system_timer_count never_running_env i (1 + n)
                      < time_get_system_timer_count never_running_env i 0 + 10000000000"
    by (intro allI exI [of _ 9]) (simp add: never_running_env_def example_env_def)
  note c1 = C5_boot_sequence [OF h, of 10 example_env 0 10000000000]
  note c2 = C5_boot_sequence [OF h, of 20 never_running_env 0 10000000000]
  have e4: "spec_boot_trace 0 ?tbl 0 (length ?tbl) =
             [(0, Store_processor_running 0 True),
              (0, Call_proc_send_ipi 1 NONE INIT 0 True),
              (0, Call_time_stall_process 10000000),
              (0, Call_proc_send_ipi 1 NONE STARTUP 1 True),
              (0, Call_proc_send_ipi 3 NONE INIT 0 True),
              (0, Call_time_stall_process 10000000),
              (0, Call_proc_send_ipi 3 NONE STARTUP 1 True),
              (0, Call_proc_send_ipi 7 NONE INIT 0 True),
              (0, Call_time_stall_process 10000000),
              (0, Call_proc_send_ipi 7 NONE STARTUP 1 True)]"
    by (simp add: tbl spec_boot_trace_def spec_boot_actions_def upt4 TRAMPOLINE_PADDR_def)
  have e2: "spec_boot_trace 0 ?tbl 0 2 =
             [(0, Store_processor_running 0 True),
              (0, Call_proc_send_ipi 1 NONE INIT 0 True),
              (0, Call_time_stall_process 10000000),
              (0, Call_proc_send_ipi 1 NONE STARTUP 1 True)]"
    by (simp add: tbl spec_boot_trace_def spec_boot_actions_def upt2 TRAMPOLINE_PADDR_def)
  have t4: "spec_boot_table ?tbl (length ?tbl) =
             [\<lparr>processor_id = 0, processor_running = True, lapic_id = 0\<rparr>,
              \<lparr>processor_id = 1, processor_running = True, lapic_id = 1\<rparr>,
              \<lparr>processor_id = 2, processor_running = True, lapic_id = 3\<rparr>,
              \<lparr>processor_id = 3, processor_running = True, lapic_id = 7\<rparr>]"
    by (simp add: tbl spec_boot_table_def)
  have t1: "spec_boot_table ?tbl 1 =
             [\<lparr>processor_id = 0, processor_running = True, lapic_id = 0\<rparr>,
              \<lparr>processor_id = 1, processor_running = False, lapic_id = 1\<rparr>,
              \<lparr>processor_id = 2, processor_running = False, lapic_id = 3\<rparr>,
              \<lparr>processor_id = 3, processor_running = False, lapic_id = 7\<rparr>]"
    by (simp add: tbl spec_boot_table_def)
  obtain out1 where run1:
    "start_processors_loop 10 example_env 0 10000000000 0 enumerated_state = Some out1"
    using c1 timer1 by blast
  have "map_option returned (start_processors_loop 10 example_env 0 10000000000 0 enumerated_state)
          = Some True"
    by code_simp
  then obtain st1 where out1: "out1 = Returns () st1"
    using run1 by (auto elim: returned.elims)
  have a: "\<exists>st'. start_processors_loop 10 example_env 0 10000000000 0 enumerated_state =
               Some (Returns () st')
         \<and> trace st' = spec_boot_trace 0 ?tbl 0 (length ?tbl)
         \<and> proc_info_block st' = spec_boot_table ?tbl (length ?tbl)"
    using c1 run1 out1 tr by auto
  obtain out2 where run2:
    "start_processors_loop 20 never_running_env 0 10000000000 0 enumerated_state = Some out2"
    using c2 timer2 by blast
  have "map_option returned (start_processors_loop 20 never_running_env 0 10000000000 0 enumerated_state)
          = Some False"
    by code_simp
  then obtain e st2 where out2: "out2 = Fatal e st2"
    using run2 by (auto elim: returned.elims)
  from c2 run2 out2 obtain n where
    n: "n < length ?tbl"
    "lapic_id (?tbl ! n) \<noteq> 0"
    "e = AssertFailed ''proc_info_block[i].processor_running''"
    "trace st2 = trace enumerated_state @ spec_boot_trace 0 ?tbl 0 (Suc n)"
    "proc_info_block st2 = spec_boot_table ?tbl n"
    and g: "\<forall>j < n. lapic_id (?tbl ! j) \<noteq> 0 \<and> \<not> processor_running (?tbl ! j) \<longrightarrow>
              ap_running_after never_running_env (of_nat j) \<noteq> None"
    by blast
  have none: "ap_running_after never_running_env (of_nat 1) = None"
    by (simp add: never_running_env_def)
  have "\<not> 1 < n"
  proof
    assume "1 < n"
    then have "ap_running_after never_running_env (of_nat 1) \<noteq> None"
      using g [rule_format, of 1] by (simp add: tbl)
    then show False
      using none by simp
  qed
  moreover have "n \<noteq> 0"
  proof
    assume "n = 0"
    then show False
      using n(2) by (simp add: tbl)
  qed
  ultimately have n1: "n = 1"
    by arith
  have b: "\<exists>st'. start_processors_loop 20 never_running_env 0 10000000000 0 enumerated_state =
               Some (Fatal (AssertFailed ''proc_info_block[i].processor_running'') st')
         \<and> trace st' = spec_boot_trace 0 ?tbl 0 2
         \<and> proc_info_block st' = spec_boot_table ?tbl 1"
    using run2 out2 n(3,4,5) by (simp add: n1 tr numeral_2_eq_2)
  show ?thesis
    using h timer1 a b unfolding e4 e2 t4 t1 by blast
qed

text \<open>
  Claim C2 says that the wait for a started processor is bounded by one second. In the
  example the timer counts nanoseconds, so that one second is \<open>10 ^ 9\<close> units, it is read
  once a second during the wait, and each started processor sets its flag only just
  before the fifth reading, five seconds after \<^verbatim>\<open>start_time\<close>. \<open>proc_mp_init\<close> does not
  halt: the offset it asks the timer for is that of 10000000000 ns, ten seconds.
\<close>

theorem C2_wait_is_ten_seconds:
  "time_get_system_timer_offset example_env 1000000000 = 1000000000
   \<and> time_get_system_timer_count example_env 1 1 = time_get_system_timer_count example_env 1 0 + 1000000000
   \<and> time_get_system_timer_count example_env 1 5 = time_get_system_timer_count example_env 1 0 + 5000000000
   \<and> ap_running_after example_env 1 = Some 5
   \<and> map_option returned (proc_mp_init 10 example_env 0 boot_state) = Some True"
  by code_simp

end
